theory Spec2Isabelle
  imports Main "HOL-Library.Sublist" "HOL-Library.Char_ord" "HOL-Library.List_Lexorder"
    "HOL-Library.Multiset"
begin

section \<open>Python values and exceptions\<close>

text \<open>
  The script \<^verbatim>\<open>rural_urban_pop_by_dept.py\<close> raises no exception of its own; every
  failure comes from an indexing expression, from numpy broadcasting or from a library
  call. \<open>LibraryError\<close> stands for whatever exception \<^verbatim>\<open>fiona\<close>, \<^verbatim>\<open>rasterio\<close>,
  \<^verbatim>\<open>rasterstats\<close> or \<^verbatim>\<open>open\<close> raise, with its message.
\<close>

datatype error = ValueError | IndexError | KeyError string | LibraryError string

datatype pyval = PyNone | PyInt int | PyStr string

type_synonym dict = "(string \<times> pyval) list"

definition or_raise :: "error + 'a \<Rightarrow> ('a \<Rightarrow> error + 'b) \<Rightarrow> error + 'b" where
  \<comment> \<open>Sequencing: an exception raised by the first step ends the computation.\<close>
  "or_raise r f = (case r of Inl e \<Rightarrow> Inl e | Inr x \<Rightarrow> f x)"

definition getitem :: "dict \<Rightarrow> string \<Rightarrow> error + pyval" where
  \<comment> \<open>\<^verbatim>\<open>d[k]\<close>: KeyError when the key is missing.\<close>
  "getitem d k = (case map_of d k of None \<Rightarrow> Inl (KeyError k) | Some v \<Rightarrow> Inr v)"

definition getidx :: "'a list \<Rightarrow> nat \<Rightarrow> error + 'a" where
  \<comment> \<open>\<^verbatim>\<open>xs[i]\<close> for a non-negative literal index: IndexError out of range.\<close>
  "getidx xs i = (if i < length xs then Inr (xs ! i) else Inl IndexError)"

section \<open>Strings: \<^verbatim>\<open>str.split\<close> and the year token (line 88)\<close>

fun split_first :: "string \<Rightarrow> string \<Rightarrow> (string \<times> string) option" where
  \<comment> \<open>The text before and after the leftmost occurrence of \<open>sep\<close>, if there is one.\<close>
  "split_first sep [] = (if sep = [] then Some ([], []) else None)"
| "split_first sep (c # cs) =
     (if prefix sep (c # cs) then Some ([], drop (length sep) (c # cs))
      else (case split_first sep cs of None \<Rightarrow> None | Some (a, b) \<Rightarrow> Some (c # a, b)))"

lemma split_first_shorter:
  "split_first sep s = Some (a, b) \<Longrightarrow> sep \<noteq> [] \<Longrightarrow> length b < length s"
proof (induction s arbitrary: a)
  case Nil
  then show ?case by simp
next
  case (Cons c cs)
  show ?case
  proof (cases "prefix sep (c # cs)")
    case True
    with Cons.prems show ?thesis by (cases sep) auto
  next
    case False
    with Cons.prems obtain a' where "split_first sep cs = Some (a', b)"
      by (auto split: option.splits)
    from Cons.IH [OF this Cons.prems(2)] show ?thesis by simp
  qed
qed

function split_pieces :: "string \<Rightarrow> nat option \<Rightarrow> string \<Rightarrow> string list" where
  \<comment> \<open>The pieces of \<^verbatim>\<open>s.split(sep, maxsplit)\<close> for a non-empty \<open>sep\<close>; \<open>None\<close> is no limit.\<close>
  "split_pieces sep maxsplit s =
     (if sep = [] \<or> maxsplit = Some 0 then [s]
      else (case split_first sep s of
              None \<Rightarrow> [s]
            | Some (a, b) \<Rightarrow> a # split_pieces sep (map_option (\<lambda>n. n - 1) maxsplit) b))"
  by pat_completeness auto
termination
  by (relation "measure (\<lambda>(sep, maxsplit, s). length s)") (auto dest: split_first_shorter)

declare split_pieces.simps [simp del]

definition str_split :: "string \<Rightarrow> nat option \<Rightarrow> string \<Rightarrow> error + string list" where
  \<comment> \<open>\<^verbatim>\<open>s.split(sep, maxsplit)\<close>: an empty separator raises ValueError.\<close>
  "str_split sep maxsplit s =
     (if sep = [] then Inl ValueError else Inr (split_pieces sep maxsplit s))"

definition extract_year :: "string \<Rightarrow> error + string" where
  \<comment> \<open>\<^verbatim>\<open>pop_raster.split("lspop", 1)[1].split("/hdr.adf")[0]\<close>\<close>
  "extract_year pop_raster =
     or_raise (str_split ''lspop'' (Some 1) pop_raster) (\<lambda>parts.
     or_raise (getidx parts 1) (\<lambda>rest.
     or_raise (str_split ''/hdr.adf'' None rest) (\<lambda>parts2.
     getidx parts2 0)))"

section \<open>numpy arrays: \<^verbatim>\<open>np.where\<close> and band selection (lines 72-74, 78, 83)\<close>

text \<open>
  \<^verbatim>\<open>rasterio.mask.mask\<close> returns a three-dimensional array (band, row, column). An array
  carries its shape, so that an axis of length 0 keeps the lengths of the axes after it.
  Pixel values are integers: the land-use raster is categorical and the population
  rasters hold counts.
\<close>

datatype ndarray3 = Array3 (shape3: "nat \<times> nat \<times> nat") (data3: "int list list list")

datatype ndarray2 = Array2 (shape2: "nat \<times> nat") (data2: "int list list")

definition wf3 :: "ndarray3 \<Rightarrow> bool" where
  \<comment> \<open>The nested lists have the lengths the shape says.\<close>
  "wf3 a = (case shape3 a of (nb, nr, nc) \<Rightarrow>
     length (data3 a) = nb \<and>
     list_all (\<lambda>band. length band = nr \<and> list_all (\<lambda>row. length row = nc) band) (data3 a))"

definition broadcast_dim :: "nat \<Rightarrow> nat \<Rightarrow> error + nat" where
  \<comment> \<open>numpy broadcasting of one axis: equal lengths, or one of them is 1.\<close>
  "broadcast_dim m n =
     (if m = n then Inr m else if m = 1 then Inr n else if n = 1 then Inr m
      else Inl ValueError)"

definition bidx :: "nat \<Rightarrow> nat \<Rightarrow> nat" where
  \<comment> \<open>The index read on an axis of length \<open>n\<close>: an axis of length 1 is repeated.\<close>
  "bidx n i = (if n = 1 then 0 else i)"

definition at3 :: "ndarray3 \<Rightarrow> nat \<Rightarrow> nat \<Rightarrow> nat \<Rightarrow> int" where
  "at3 a b i j = (case shape3 a of (nb, nr, nc) \<Rightarrow>
     data3 a ! bidx nb b ! bidx nr i ! bidx nc j)"

definition np_where_eq :: "ndarray3 \<Rightarrow> int \<Rightarrow> ndarray3 \<Rightarrow> error + ndarray3" where
  \<comment> \<open>\<^verbatim>\<open>np.where(r_img == v, p_img, 0)\<close>; shapes that do not broadcast raise ValueError.\<close>
  "np_where_eq r_img v p_img =
     (case shape3 r_img of (rb, rh, rw) \<Rightarrow>
      case shape3 p_img of (pb, ph, pw) \<Rightarrow>
        or_raise (broadcast_dim rb pb) (\<lambda>nb.
        or_raise (broadcast_dim rh ph) (\<lambda>nr.
        or_raise (broadcast_dim rw pw) (\<lambda>nc.
        Inr (Array3 (nb, nr, nc)
          (map (\<lambda>b. map (\<lambda>i. map (\<lambda>j.
             if at3 r_img b i j = v then at3 p_img b i j else 0)
             [0..<nc]) [0..<nr]) [0..<nb]))))))"

definition index0 :: "ndarray3 \<Rightarrow> error + ndarray2" where
  \<comment> \<open>\<^verbatim>\<open>a[0]\<close>: the first band; IndexError when there is no band.\<close>
  "index0 a = (case shape3 a of (nb, nr, nc) \<Rightarrow>
     if nb = 0 then Inl IndexError else Inr (Array2 (nr, nc) (data3 a ! 0)))"

section \<open>The files and libraries the script talks to\<close>

record 'g feature =
  geometry :: 'g
  properties :: dict

text \<open>
  Everything outside the script is a parameter: the vector files as \<^verbatim>\<open>fiona\<close> reads them,
  the raster datasets \<^verbatim>\<open>rasterio.open\<close> returns (type \<open>'d\<close>), \<^verbatim>\<open>rasterio.mask.mask\<close> with
  \<^verbatim>\<open>crop=True\<close> (an array and an affine transform of type \<open>'t\<close>), \<^verbatim>\<open>zonal_stats\<close> with
  \<^verbatim>\<open>stats=['sum']\<close> (one dictionary per zone), \<^verbatim>\<open>glob\<close>, and whether the output file can
  be opened for writing.
\<close>

record ('g, 'd, 't) env =
  fiona_open :: "string \<Rightarrow> error + 'g feature list"
  rasterio_open :: "string \<Rightarrow> error + 'd"
  mask_crop :: "'d \<Rightarrow> 'g list \<Rightarrow> error + (ndarray3 \<times> 't)"
  zonal_stats :: "'g feature list \<Rightarrow> ndarray2 \<Rightarrow> 't \<Rightarrow> error + dict list"
  glob :: "string \<Rightarrow> string list"
  open_write :: "string \<Rightarrow> error option"

text \<open>
  What a run leaves behind: the rows of \<^verbatim>\<open>rural_urban_pop.csv\<close> (\<open>None\<close>: no such file),
  and the arguments of every call of \<^verbatim>\<open>mask\<close> it made, in order. A row is the list of
  its fields; the text \<^verbatim>\<open>csv\<close> makes of a field is not modelled, and writing to the file,
  once it is open, is taken to succeed. The list of calls is an observation only: nothing
  in the run reads it.
\<close>

record ('g, 'd) world =
  csv_file :: "pyval list list option"
  mask_calls :: "('d \<times> 'g list) list"

definition pop_dir :: string where "pop_dir = ''data/''"
definition zones :: string where "zones = ''data/GTM_adm2.shp''"
definition rural_region :: string where "rural_region = ''data/rural.tif''"

definition get_pop_rasters :: "('g, 'd, 't) env \<Rightarrow> string list" where
  \<comment> \<open>\<^verbatim>\<open>sorted\<close> compares strings character by character, a proper prefix first.\<close>
  "get_pop_rasters env = sort (glob env (pop_dir @ ''lspop*/hdr.adf''))"

section \<open>The CSV writer (lines 58-61, 104)\<close>

definition fieldnames :: "string list" where
  "fieldnames = [''id'', ''name'', ''year'', ''rural_pop'', ''urban_pop'']"

definition header_row :: "pyval list" where
  \<comment> \<open>\<^verbatim>\<open>writeheader\<close> writes the field names as a row.\<close>
  "header_row = map PyStr fieldnames"

definition dict_to_list :: "dict \<Rightarrow> pyval list" where
  \<comment> \<open>\<^verbatim>\<open>DictWriter\<close> writes the value of each field in field order, \<^verbatim>\<open>''\<close> for a missing one.
     Its check for keys that are no field names cannot fire: the keys of \<^verbatim>\<open>t\<close> are the five
     field names.\<close>
  "dict_to_list t = map (\<lambda>k. case map_of t k of None \<Rightarrow> PyStr [] | Some v \<Rightarrow> v) fieldnames"

definition writerows :: "('g, 'd) world \<Rightarrow> dict list \<Rightarrow> ('g, 'd) world" where
  "writerows w output =
     w\<lparr>csv_file := map_option (\<lambda>rows. rows @ map dict_to_list output) (csv_file w)\<rparr>"

section \<open>One population raster (lines 67-101)\<close>

fun build_output :: "('g feature \<times> dict \<times> dict) list \<Rightarrow> string \<Rightarrow> error + dict list" where
  \<comment> \<open>The loop of lines 93-101 over \<^verbatim>\<open>zip(features, rural_stats, urban_stats)\<close>.\<close>
  "build_output [] year = Inr []"
| "build_output ((f, rs, us) # rest) year =
     or_raise (getitem (properties f) ''ID_2'') (\<lambda>id2.
     or_raise (getitem (properties f) ''NAME_2'') (\<lambda>name2.
     or_raise (getitem rs ''sum'') (\<lambda>rsum.
     or_raise (getitem us ''sum'') (\<lambda>usum.
     or_raise (build_output rest year) (\<lambda>output.
     Inr ([(''id'', id2), (''name'', name2), (''year'', PyStr year),
           (''rural_pop'', rsum), (''urban_pop'', usum)] # output))))))"

definition record_of :: "string \<Rightarrow> 'g feature \<times> dict \<times> dict \<Rightarrow> dict" where
  \<comment> \<open>The dictionary \<^verbatim>\<open>t\<close> of lines 95-100 for one zone, when no key is missing.\<close>
  "record_of year z = (case z of (f, rs, us) \<Rightarrow>
     [(''id'', the (map_of (properties f) ''ID_2'')),
      (''name'', the (map_of (properties f) ''NAME_2'')),
      (''year'', PyStr year),
      (''rural_pop'', the (map_of rs ''sum'')),
      (''urban_pop'', the (map_of us ''sum''))])"

definition aggregate ::
  "('g, 'd, 't) env \<Rightarrow> 'g feature list \<Rightarrow> ndarray3 \<Rightarrow> ndarray3 \<Rightarrow> 't \<Rightarrow> string
     \<Rightarrow> error + dict list" where
  \<comment> \<open>Lines 72-101, once the population raster is clipped.\<close>
  "aggregate env features r_img p_img p_transform pop_raster =
     or_raise (np_where_eq r_img 1 p_img) (\<lambda>rural_pop.
     or_raise (np_where_eq r_img 0 p_img) (\<lambda>urban_pop.
     or_raise (index0 rural_pop) (\<lambda>rural0.
     or_raise (zonal_stats env features rural0 p_transform) (\<lambda>rural_stats.
     or_raise (index0 urban_pop) (\<lambda>urban0.
     or_raise (zonal_stats env features urban0 p_transform) (\<lambda>urban_stats.
     or_raise (extract_year pop_raster) (\<lambda>year.
     build_output (zip features (zip rural_stats urban_stats)) year)))))))"

definition pop_year ::
  "('g, 'd, 't) env \<Rightarrow> 'g list \<Rightarrow> ndarray3 \<Rightarrow> 'g feature list \<Rightarrow> string
     \<Rightarrow> ('d \<times> 'g list) list \<times> (error + dict list)" where
  \<comment> \<open>Lines 67-101: the calls of \<^verbatim>\<open>mask\<close> made, and the records or the exception.\<close>
  "pop_year env clip_box r_img features pop_raster =
     (case rasterio_open env pop_raster of
        Inl e \<Rightarrow> ([], Inl e)
      | Inr pop \<Rightarrow>
          ([(pop, clip_box)],
           or_raise (mask_crop env pop clip_box) (\<lambda>(p_img, p_transform).
             aggregate env features r_img p_img p_transform pop_raster)))"

section \<open>The run (lines 40-104)\<close>

fun for_loop ::
  "('g, 'd, 't) env \<Rightarrow> 'g list \<Rightarrow> ndarray3 \<Rightarrow> 'g feature list \<Rightarrow> string list
     \<Rightarrow> ('g, 'd) world \<Rightarrow> ('g, 'd) world \<times> error option" where
  "for_loop env clip_box r_img features [] w = (w, None)"
| "for_loop env clip_box r_img features (pop_raster # rest) w =
     (case pop_year env clip_box r_img features pop_raster of (calls, res) \<Rightarrow>
        (case res of
           Inl e \<Rightarrow> (w\<lparr>mask_calls := mask_calls w @ calls\<rparr>, Some e)
         | Inr output \<Rightarrow>
             for_loop env clip_box r_img features rest
               (writerows (w\<lparr>mask_calls := mask_calls w @ calls\<rparr>) output)))"

definition main :: "('g, 'd, 't) env \<Rightarrow> ('g, 'd) world \<Rightarrow> ('g, 'd) world \<times> error option" where
  \<comment> \<open>The exception that ends the run, if any, and the world it leaves.\<close>
  "main env w =
     (case fiona_open env ''data/ca_boundingbox.shp'' of
        Inl e \<Rightarrow> (w, Some e)
      | Inr boundingbox \<Rightarrow>
     (case fiona_open env zones of
        Inl e \<Rightarrow> (w, Some e)
      | Inr features \<Rightarrow>
     (case rasterio_open env rural_region of
        Inl e \<Rightarrow> (w, Some e)
      | Inr rural \<Rightarrow>
     (case mask_crop env rural (map geometry boundingbox) of
        Inl e \<Rightarrow> (w\<lparr>mask_calls := mask_calls w @ [(rural, map geometry boundingbox)]\<rparr>, Some e)
      | Inr (r_img, r_transform) \<Rightarrow>
     (case open_write env ''rural_urban_pop.csv'' of
        Some e \<Rightarrow> (w\<lparr>mask_calls := mask_calls w @ [(rural, map geometry boundingbox)]\<rparr>, Some e)
      | None \<Rightarrow>
          for_loop env (map geometry boundingbox) r_img features (get_pop_rasters env)
            (w\<lparr>mask_calls := mask_calls w @ [(rural, map geometry boundingbox)],
               csv_file := Some [header_row]\<rparr>))))))"

section \<open>Zonal sums\<close>

text \<open>
  \<^verbatim>\<open>rasterstats\<close> is not part of the repository. Where a property depends on what a zonal
  sum is, the library is instantiated by \<open>zonal_sums\<close>: a zone covers the cells of the
  array that a rasterisation rule \<open>rasterize\<close> (a parameter: it sees the feature, the affine
  transform and the shape of the array) assigns to it, the statistic is the sum of the
  array over these cells, and a zone that covers no cell has no sum (\<^verbatim>\<open>None\<close>).
\<close>

definition zone_cells ::
  "('g feature \<Rightarrow> 't \<Rightarrow> nat \<times> nat \<Rightarrow> (nat \<times> nat) list) \<Rightarrow> 'g feature \<Rightarrow> 't \<Rightarrow> nat \<times> nat
     \<Rightarrow> (nat \<times> nat) list" where
  "zone_cells rasterize f affine shp =
     filter (\<lambda>(i, j). i < fst shp \<and> j < snd shp) (rasterize f affine shp)"

definition sum_cells :: "(nat \<times> nat) list \<Rightarrow> ndarray2 \<Rightarrow> int" where
  "sum_cells cells a = (\<Sum>(i, j)\<leftarrow>cells. data2 a ! i ! j)"

definition zone_sum :: "(nat \<times> nat) list \<Rightarrow> ndarray2 \<Rightarrow> pyval" where
  "zone_sum cells a = (if cells = [] then PyNone else PyInt (sum_cells cells a))"

definition zonal_sums ::
  "('g feature \<Rightarrow> 't \<Rightarrow> nat \<times> nat \<Rightarrow> (nat \<times> nat) list) \<Rightarrow> 'g feature list \<Rightarrow> ndarray2 \<Rightarrow> 't
     \<Rightarrow> error + dict list" where
  \<comment> \<open>Modelled from the spec: \<^verbatim>\<open>zonal_stats(features, array, affine, stats=['sum'])\<close> of the
     \<^verbatim>\<open>rasterstats\<close> library, which the repository only calls: per zone, the sum of the pixel
     values that fall within the zone's polygon, one dictionary per zone in zone order.\<close>
  "zonal_sums rasterize features a affine =
     Inr (map (\<lambda>f. [(''sum'', zone_sum (zone_cells rasterize f affine (shape2 a)) a)]) features)"

section \<open>A small data set\<close>

text \<open>
  Two zones on a grid of two rows and three columns: zone 1 covers five cells (three
  urban, two rural), zone 2 the last cell (urban). The years 2000 and 2010 have a
  population raster (the one of 2010 has a second band), and a directory \<^verbatim>\<open>lspop2000-b\<close>
  holds a copy of the raster of 2000; every other population raster
  is unreadable, and so is every raster when a clip geometry misses it (geometry 9).
  \<open>demo_records\<close> lists the records of the two years; \<open>demo_mask_alt\<close> is \<open>demo_mask\<close> with
  another second band for 2010; \<open>stale_file\<close> is a world where the output file exists.
\<close>

definition demo_zones :: "nat feature list" where
  "demo_zones =
     [\<lparr>geometry = 1, properties = [(''ID_2'', PyInt 101), (''NAME_2'', PyStr ''Coban'')]\<rparr>,
      \<lparr>geometry = 2, properties = [(''ID_2'', PyInt 102), (''NAME_2'', PyStr ''Flores'')]\<rparr>]"

definition demo_rasterize :: "nat feature \<Rightarrow> nat \<Rightarrow> nat \<times> nat \<Rightarrow> (nat \<times> nat) list" where
  "demo_rasterize f affine shp =
     (if geometry f = 1 then [(0, 0), (0, 1), (0, 2), (1, 0), (1, 1)]
      else if geometry f = 2 then [(1, 2)] else [])"

definition demo_rural :: ndarray3 where
  "demo_rural = Array3 (1, 2, 3) [[[0, 0, 0], [1, 1, 0]]]"

definition demo_pop2000 :: ndarray3 where
  "demo_pop2000 = Array3 (1, 2, 3) [[[1, 2, 3], [4, 5, 6]]]"

definition demo_pop2010 :: ndarray3 where
  "demo_pop2010 = Array3 (2, 2, 3) [[[10, 20, 30], [40, 50, 60]], [[9, 9, 9], [9, 9, 9]]]"

definition demo_mask :: "string \<Rightarrow> nat list \<Rightarrow> error + (ndarray3 \<times> nat)" where
  "demo_mask d clip =
     (if clip = [] then Inl (LibraryError ''no shapes'')
      else if 9 \<in> set clip then Inl (LibraryError ''Input shapes do not overlap raster.'')
      else if d = ''data/rural.tif'' then Inr (demo_rural, 7)
      else if d = ''data/lspop2000/hdr.adf'' then Inr (demo_pop2000, 7)
      else if d = ''data/lspop2000-b/hdr.adf'' then Inr (demo_pop2000, 7)
      else if d = ''data/lspop2010/hdr.adf'' then Inr (demo_pop2010, 7)
      else Inl (LibraryError ''not a raster''))"

definition demo_env :: "nat feature list \<Rightarrow> string list \<Rightarrow> (nat, string, nat) env" where
  "demo_env boxes paths =
     \<lparr>fiona_open = (\<lambda>path.
        if path = ''data/ca_boundingbox.shp'' then Inr boxes
        else if path = ''data/GTM_adm2.shp'' then Inr demo_zones
        else Inl (LibraryError ''no such file'')),
      rasterio_open = (\<lambda>path. Inr path),
      mask_crop = demo_mask,
      zonal_stats = zonal_sums demo_rasterize,
      glob = (\<lambda>pattern. if pattern = ''data/lspop*/hdr.adf'' then paths else []),
      open_write = (\<lambda>path. None)\<rparr>"

definition demo_box :: "nat feature list" where
  "demo_box = [\<lparr>geometry = 0, properties = []\<rparr>]"

definition demo_records :: "string \<Rightarrow> dict list" where
  "demo_records p =
     (if p = ''data/lspop2000/hdr.adf'' then
        [[(''id'', PyInt 101), (''name'', PyStr ''Coban''), (''year'', PyStr ''2000''),
          (''rural_pop'', PyInt 9), (''urban_pop'', PyInt 6)],
         [(''id'', PyInt 102), (''name'', PyStr ''Flores''), (''year'', PyStr ''2000''),
          (''rural_pop'', PyInt 0), (''urban_pop'', PyInt 6)]]
      else
        [[(''id'', PyInt 101), (''name'', PyStr ''Coban''), (''year'', PyStr ''2010''),
          (''rural_pop'', PyInt 90), (''urban_pop'', PyInt 60)],
         [(''id'', PyInt 102), (''name'', PyStr ''Flores''), (''year'', PyStr ''2010''),
          (''rural_pop'', PyInt 0), (''urban_pop'', PyInt 60)]])"

definition demo_pop2010_alt :: ndarray3 where
  "demo_pop2010_alt = Array3 (2, 2, 3) [[[10, 20, 30], [40, 50, 60]], [[1, 1, 1], [1, 1, 1]]]"

definition demo_mask_alt :: "string \<Rightarrow> nat list \<Rightarrow> error + (ndarray3 \<times> nat)" where
  "demo_mask_alt d clip =
     (if demo_mask d clip = Inr (demo_pop2010, 7) then Inr (demo_pop2010_alt, 7)
      else demo_mask d clip)"

definition stale_file :: "(nat, string) world" where
  "stale_file = \<lparr>csv_file = Some [[PyStr ''stale'']], mask_calls = []\<rparr>"

definition no_file :: "(nat, string) world" where
  "no_file = \<lparr>csv_file = None, mask_calls = []\<rparr>"

section \<open>The year token\<close>

lemma or_raise_simps [simp]:
  "or_raise (Inl e) f = Inl e"
  "or_raise (Inr x) f = f x"
  by (simp_all add: or_raise_def)

lemma split_first_at_sep: "split_first sep (sep @ z) = Some ([], z)"
proof (cases "sep @ z")
  case Nil
  then show ?thesis by simp
next
  case (Cons c cs)
  have "prefix sep (c # cs)" unfolding Cons [symmetric] by simp
  then have "split_first sep (c # cs) = Some ([], drop (length sep) (c # cs))" by simp
  then show ?thesis unfolding Cons [symmetric] by simp
qed

lemma split_first_leftmost:
  "\<forall>i<length a. \<not> prefix sep (drop i (a @ sep @ z)) \<Longrightarrow>
   split_first sep (a @ sep @ z) = Some (a, z)"
proof (induction a)
  case Nil
  then show ?case by (simp add: split_first_at_sep)
next
  case (Cons c a)
  from Cons.prems have "\<not> prefix sep (drop 0 ((c # a) @ sep @ z))" by blast
  then have np: "\<not> prefix sep (c # a @ sep @ z)" by simp
  have "\<forall>i<length a. \<not> prefix sep (drop i (a @ sep @ z))"
  proof (intro allI impI)
    fix i assume "i < length a"
    then have "Suc i < length (c # a)" by simp
    with Cons.prems have "\<not> prefix sep (drop (Suc i) ((c # a) @ sep @ z))" by blast
    then show "\<not> prefix sep (drop i (a @ sep @ z))" by simp
  qed
  from Cons.IH [OF this] np show ?case by simp
qed

lemma split_pieces_head:
  "sep \<noteq> [] \<Longrightarrow> lim \<noteq> Some 0 \<Longrightarrow> split_first sep s = Some (a, b) \<Longrightarrow>
   \<exists>rest. split_pieces sep lim s = a # rest"
  by (subst split_pieces.simps) simp

lemma split_pieces_once:
  "sep \<noteq> [] \<Longrightarrow> split_first sep s = Some (a, b) \<Longrightarrow> split_pieces sep (Some 1) s = [a, b]"
  by (subst split_pieces.simps, simp, subst split_pieces.simps, simp)

lemma between_markers:
  assumes "sep1 \<noteq> []" and "sep2 \<noteq> []"
    and "\<forall>i<length a. \<not> prefix sep1 (drop i (a @ sep1 @ y @ sep2 @ z))"
    and "\<forall>j<length y. \<not> prefix sep2 (drop j (y @ sep2 @ z))"
  shows "or_raise (str_split sep1 (Some 1) (a @ sep1 @ y @ sep2 @ z)) (\<lambda>parts.
         or_raise (getidx parts 1) (\<lambda>rest.
         or_raise (str_split sep2 None rest) (\<lambda>parts2. getidx parts2 0))) = Inr y"
proof -
  let ?rest = "y @ sep2 @ z"
  have "split_first sep1 (a @ sep1 @ ?rest) = Some (a, ?rest)"
    using assms(3) by (rule split_first_leftmost)
  then have s1: "split_pieces sep1 (Some 1) (a @ sep1 @ ?rest) = [a, ?rest]"
    using assms(1) by (rule split_pieces_once [rotated])
  have "split_first sep2 ?rest = Some (y, z)"
    using assms(4) by (rule split_first_leftmost)
  then obtain more where s2: "split_pieces sep2 None ?rest = y # more"
    using split_pieces_head [of sep2 None ?rest y z] assms(2) by auto
  show ?thesis
    using assms(1,2) s1 s2 by (simp add: str_split_def getidx_def)
qed

text \<open>
  C4. The year token of a path is the text strictly between the leftmost \<^verbatim>\<open>lspop\<close> and the
  first \<^verbatim>\<open>/hdr.adf\<close> after it: whenever the path reads \<open>a @ ''lspop'' @ y @ ''/hdr.adf'' @ z\<close>
  with no earlier occurrence of either marker, the token is \<open>y\<close>. For
  \<^verbatim>\<open>data/lspop2005/hdr.adf\<close> it is \<^verbatim>\<open>2005\<close>.
\<close>

theorem year_between_markers:
  "(\<forall>a y z. pop_raster = a @ ''lspop'' @ y @ ''/hdr.adf'' @ z
      \<and> (\<forall>i<length a. \<not> prefix ''lspop'' (drop i pop_raster))
      \<and> (\<forall>j<length y. \<not> prefix ''/hdr.adf'' (drop j (y @ ''/hdr.adf'' @ z)))
      \<longrightarrow> extract_year pop_raster = Inr y)
   \<and> extract_year ''data/lspop2005/hdr.adf'' = Inr ''2005''"
proof (intro conjI allI impI)
  fix a y z
  assume h: "pop_raster = a @ ''lspop'' @ y @ ''/hdr.adf'' @ z
      \<and> (\<forall>i<length a. \<not> prefix ''lspop'' (drop i pop_raster))
      \<and> (\<forall>j<length y. \<not> prefix ''/hdr.adf'' (drop j (y @ ''/hdr.adf'' @ z)))"
  then have p: "pop_raster = a @ ''lspop'' @ y @ ''/hdr.adf'' @ z" by blast
  from h have f1:
    "\<forall>i<length a. \<not> prefix ''lspop'' (drop i (a @ ''lspop'' @ y @ ''/hdr.adf'' @ z))"
    unfolding p [symmetric] by blast
  from h have f2: "\<forall>j<length y. \<not> prefix ''/hdr.adf'' (drop j (y @ ''/hdr.adf'' @ z))"
    by blast
  have n1: "''lspop'' \<noteq> []" and n2: "''/hdr.adf'' \<noteq> []" by simp_all
  show "extract_year pop_raster = Inr y"
    unfolding extract_year_def p by (rule between_markers [OF n1 n2 f1 f2])
next
  show "extract_year ''data/lspop2005/hdr.adf'' = Inr ''2005''"
    by code_simp
qed

theorem year_between_markers_witness:
  "extract_year ''data/lspop1998/hdr.adf'' = Inr ''1998''"
proof -
  have h: "''data/lspop1998/hdr.adf'' = ''data/'' @ ''lspop'' @ ''1998'' @ ''/hdr.adf'' @ []
   \<and> (\<forall>i<length ''data/''. \<not> prefix ''lspop'' (drop i ''data/lspop1998/hdr.adf''))
   \<and> (\<forall>j<length ''1998''. \<not> prefix ''/hdr.adf'' (drop j (''1998'' @ ''/hdr.adf'' @ [])))"
    by (simp add: less_Suc_eq)
  from year_between_markers [of "''data/lspop1998/hdr.adf''", THEN conjunct1, rule_format, OF h]
  show ?thesis .
qed

section \<open>The derived grids\<close>

lemma bidx_less: "i < n \<Longrightarrow> bidx n i = i"
  by (auto simp: bidx_def)

lemma broadcast_dim_same: "broadcast_dim n n = Inr n"
  by (simp add: broadcast_dim_def)

lemma np_where_eq_same_shape:
  assumes "shape3 r_img = (nb, nr, nc)" and "shape3 p_img = (nb, nr, nc)"
  shows "np_where_eq r_img v p_img =
    Inr (Array3 (nb, nr, nc)
      (map (\<lambda>b. map (\<lambda>i. map (\<lambda>j.
         if data3 r_img ! b ! i ! j = v then data3 p_img ! b ! i ! j else 0)
         [0..<nc]) [0..<nr]) [0..<nb]))"
  using assms by (simp add: np_where_eq_def broadcast_dim_same at3_def bidx_less)

lemma wf3_table:
  "wf3 (Array3 (nb, nr, nc) (map (\<lambda>b. map (\<lambda>i. map (f b i) [0..<nc]) [0..<nr]) [0..<nb]))"
  by (simp add: wf3_def list_all_iff)

lemma sum_cells_table:
  assumes "\<forall>(i, j) \<in> set cells. i < nr \<and> j < nc"
  shows "sum_cells cells (Array2 (nr, nc) (map (\<lambda>i. map (f i) [0..<nc]) [0..<nr]))
       = (\<Sum>(i, j)\<leftarrow>cells. f i j)"
  unfolding sum_cells_def using assms
  by (induction cells) auto

lemma sum_list_filter_zero:
  "(\<And>x. x \<in> set xs \<Longrightarrow> \<not> P x \<Longrightarrow> f x = 0) \<Longrightarrow>
   (\<Sum>x\<leftarrow>filter P xs. f x) = (\<Sum>x\<leftarrow>xs. (f x :: int))"
  by (induction xs) auto

text \<open>
  C5. For a mask grid and a population grid of equal shape, the rural grid holds the
  population value where the mask is 1 and 0 elsewhere, the urban grid holds it where the
  mask is 0 and 0 elsewhere. A pixel whose mask value is neither 0 nor 1 (no-data is 3) is 0
  in both grids, and leaving such pixels out of a zone changes neither of its sums.
\<close>

theorem derived_grids:
  assumes "shape3 r_img = (nb, nr, nc)" and "shape3 p_img = (nb, nr, nc)"
  shows "\<exists>rural_pop urban_pop.
     np_where_eq r_img 1 p_img = Inr rural_pop \<and> np_where_eq r_img 0 p_img = Inr urban_pop
   \<and> shape3 rural_pop = shape3 p_img \<and> shape3 urban_pop = shape3 p_img
   \<and> wf3 rural_pop \<and> wf3 urban_pop
   \<and> (\<forall>b<nb. \<forall>i<nr. \<forall>j<nc.
        data3 rural_pop ! b ! i ! j
          = (if data3 r_img ! b ! i ! j = 1 then data3 p_img ! b ! i ! j else 0)
      \<and> data3 urban_pop ! b ! i ! j
          = (if data3 r_img ! b ! i ! j = 0 then data3 p_img ! b ! i ! j else 0)
      \<and> (data3 r_img ! b ! i ! j \<notin> {0, 1} \<longrightarrow>
           data3 rural_pop ! b ! i ! j = 0 \<and> data3 urban_pop ! b ! i ! j = 0))
   \<and> (\<forall>rural0 urban0 cells.
        index0 rural_pop = Inr rural0 \<and> index0 urban_pop = Inr urban0
        \<and> (\<forall>(i, j) \<in> set cells. i < nr \<and> j < nc) \<longrightarrow>
          sum_cells cells rural0
            = sum_cells (filter (\<lambda>(i, j). data3 r_img ! 0 ! i ! j \<in> {0, 1}) cells) rural0
        \<and> sum_cells cells urban0
            = sum_cells (filter (\<lambda>(i, j). data3 r_img ! 0 ! i ! j \<in> {0, 1}) cells) urban0)"
proof -
  let ?g = "\<lambda>v b i j. if data3 r_img ! b ! i ! j = v then data3 p_img ! b ! i ! j else (0::int)"
  let ?tab = "\<lambda>v. Array3 (nb, nr, nc)
      (map (\<lambda>b. map (\<lambda>i. map (?g v b i) [0..<nc]) [0..<nr]) [0..<nb])"
  have r: "np_where_eq r_img 1 p_img = Inr (?tab 1)"
    by (rule np_where_eq_same_shape [OF assms])
  have u: "np_where_eq r_img 0 p_img = Inr (?tab 0)"
    by (rule np_where_eq_same_shape [OF assms])
  have shp: "shape3 (?tab 1) = shape3 p_img" "shape3 (?tab 0) = shape3 p_img"
    using assms by simp_all
  have wf: "wf3 (?tab 1)" "wf3 (?tab 0)"
    by (rule wf3_table)+
  have px: "\<forall>b<nb. \<forall>i<nr. \<forall>j<nc.
        data3 (?tab 1) ! b ! i ! j = ?g 1 b i j
      \<and> data3 (?tab 0) ! b ! i ! j = ?g 0 b i j
      \<and> (data3 r_img ! b ! i ! j \<notin> {0, 1} \<longrightarrow>
           data3 (?tab 1) ! b ! i ! j = 0 \<and> data3 (?tab 0) ! b ! i ! j = 0)"
    by simp
  have sums: "sum_cells cells rural0
            = sum_cells (filter (\<lambda>(i, j). data3 r_img ! 0 ! i ! j \<in> {0, 1}) cells) rural0
        \<and> sum_cells cells urban0
            = sum_cells (filter (\<lambda>(i, j). data3 r_img ! 0 ! i ! j \<in> {0, 1}) cells) urban0"
    if h: "index0 (?tab 1) = Inr rural0 \<and> index0 (?tab 0) = Inr urban0
        \<and> (\<forall>(i, j) \<in> set cells. i < nr \<and> j < nc)" for rural0 urban0 cells
  proof -
    from h have nb: "0 < nb" by (auto simp: index0_def split: if_splits)
    from h have inb: "\<forall>(i, j) \<in> set cells. i < nr \<and> j < nc" by blast
    let ?keep = "\<lambda>(i, j). data3 r_img ! 0 ! i ! j \<in> {0, 1}"
    have inb': "\<forall>(i, j) \<in> set (filter ?keep cells). i < nr \<and> j < nc"
      using inb by auto
    from h nb have r0: "rural0 = Array2 (nr, nc) (map (\<lambda>i. map (?g 1 0 i) [0..<nc]) [0..<nr])"
      and u0: "urban0 = Array2 (nr, nc) (map (\<lambda>i. map (?g 0 0 i) [0..<nc]) [0..<nr])"
      by (auto simp: index0_def upt_conv_Cons)
    have "(\<Sum>(i, j)\<leftarrow>filter ?keep cells. ?g v 0 i j) = (\<Sum>(i, j)\<leftarrow>cells. ?g v 0 i j)"
      if "v = 0 \<or> v = 1" for v
      using that by (intro sum_list_filter_zero) (auto split: if_splits)
    then show ?thesis
      unfolding r0 u0 sum_cells_table [OF inb] sum_cells_table [OF inb'] by simp
  qed
  from r u shp wf px sums show ?thesis by blast
qed

theorem derived_grids_witness:
  "shape3 demo_rural = (1, 2, 3) \<and> shape3 demo_pop2000 = (1, 2, 3)
   \<and> (\<exists>rural_pop urban_pop.
         np_where_eq demo_rural 1 demo_pop2000 = Inr rural_pop
       \<and> np_where_eq demo_rural 0 demo_pop2000 = Inr urban_pop
       \<and> wf3 rural_pop \<and> wf3 urban_pop
       \<and> data3 rural_pop ! 0 ! 1 ! 1 = 5 \<and> data3 urban_pop ! 0 ! 1 ! 1 = 0)"
proof -
  have sr: "shape3 demo_rural = (1, 2, 3)" and sp: "shape3 demo_pop2000 = (1, 2, 3)"
    by (simp_all add: demo_rural_def demo_pop2000_def)
  from derived_grids [OF sr sp] obtain rural_pop urban_pop where
    r: "np_where_eq demo_rural 1 demo_pop2000 = Inr rural_pop"
    and u: "np_where_eq demo_rural 0 demo_pop2000 = Inr urban_pop"
    and wf: "wf3 rural_pop" "wf3 urban_pop"
    and px: "\<forall>b<1. \<forall>i<2. \<forall>j<3.
        data3 rural_pop ! b ! i ! j
          = (if data3 demo_rural ! b ! i ! j = 1 then data3 demo_pop2000 ! b ! i ! j else 0)
      \<and> data3 urban_pop ! b ! i ! j
          = (if data3 demo_rural ! b ! i ! j = 0 then data3 demo_pop2000 ! b ! i ! j else 0)
      \<and> (data3 demo_rural ! b ! i ! j \<notin> {0, 1} \<longrightarrow>
           data3 rural_pop ! b ! i ! j = 0 \<and> data3 urban_pop ! b ! i ! j = 0)"
    by blast
  from px have "data3 rural_pop ! 0 ! 1 ! 1
          = (if data3 demo_rural ! 0 ! 1 ! 1 = 1 then data3 demo_pop2000 ! 0 ! 1 ! 1 else 0)
      \<and> data3 urban_pop ! 0 ! 1 ! 1
          = (if data3 demo_rural ! 0 ! 1 ! 1 = 0 then data3 demo_pop2000 ! 0 ! 1 ! 1 else 0)"
    by simp
  then have "data3 rural_pop ! 0 ! 1 ! 1 = 5 \<and> data3 urban_pop ! 0 ! 1 ! 1 = 0"
    by (simp add: demo_rural_def demo_pop2000_def)
  with sr sp r u wf show ?thesis by blast
qed

section \<open>Rural plus urban\<close>


lemma bidx_zero: "bidx n 0 = 0"
  by (simp add: bidx_def)

lemma np_where_eq_band0:
  assumes "shape3 r_img = (rb, nr, nc)" and "shape3 p_img = (pb, nr, nc)"
    and "rb = pb \<or> rb = 1 \<or> pb = 1" and "0 < rb" and "0 < pb"
  shows "\<exists>tab. np_where_eq r_img v p_img = Inr tab
    \<and> index0 tab = Inr (Array2 (nr, nc) (map (\<lambda>i. map (\<lambda>j.
         if data3 r_img ! 0 ! i ! j = v then data3 p_img ! 0 ! i ! j else 0)
         [0..<nc]) [0..<nr]))"
proof -
  define nb where "nb = (if rb = pb then rb else if rb = 1 then pb else rb)"
  have nb: "broadcast_dim rb pb = Inr nb" "0 < nb"
    using assms(3-5) by (auto simp: broadcast_dim_def nb_def)
  have at: "at3 r_img 0 i j = data3 r_img ! 0 ! i ! j" "at3 p_img 0 i j = data3 p_img ! 0 ! i ! j"
    if "i < nr" "j < nc" for i j
    using that assms(1,2) by (simp_all add: at3_def bidx_less bidx_zero)
  show ?thesis
    using nb assms(1,2)
    by (simp add: np_where_eq_def broadcast_dim_same index0_def upt_conv_Cons [of 0 nb] at)
qed

lemma at3_band0_cong:
  "shape3 a = shape3 a' \<Longrightarrow> data3 a ! 0 = data3 a' ! 0 \<Longrightarrow> at3 a 0 i j = at3 a' 0 i j"
  by (simp add: at3_def bidx_def split: prod.splits)

lemma np_where_eq_band0_cong:
  assumes "shape3 r = shape3 r'" and "shape3 p = shape3 p'"
    and "data3 r ! 0 = data3 r' ! 0" and "data3 p ! 0 = data3 p' ! 0"
  shows "(\<exists>e. np_where_eq r v p = Inl e \<and> np_where_eq r' v p' = Inl e)
       \<or> (\<exists>tab tab'. np_where_eq r v p = Inr tab \<and> np_where_eq r' v p' = Inr tab'
            \<and> index0 tab = index0 tab')"
proof -
  obtain rb rh rw where sr: "shape3 r = (rb, rh, rw)" by (cases "shape3 r")
  obtain pb ph pw where sp: "shape3 p = (pb, ph, pw)" by (cases "shape3 p")
  have sr': "shape3 r' = (rb, rh, rw)" and sp': "shape3 p' = (pb, ph, pw)"
    using assms sr sp by simp_all
  have at: "at3 r 0 i j = at3 r' 0 i j" "at3 p 0 i j = at3 p' 0 i j" for i j
    by (rule at3_band0_cong [OF assms(1) assms(3)], rule at3_band0_cong [OF assms(2) assms(4)])
  show ?thesis
  proof (cases "broadcast_dim rb pb")
    case (Inl e)
    then show ?thesis by (simp add: np_where_eq_def sr sp sr' sp')
  next
    case b: (Inr nb)
    show ?thesis
    proof (cases "broadcast_dim rh ph")
      case (Inl e)
      then show ?thesis by (simp add: np_where_eq_def sr sp sr' sp' b)
    next
      case h: (Inr nr)
      show ?thesis
      proof (cases "broadcast_dim rw pw")
        case (Inl e)
        then show ?thesis by (simp add: np_where_eq_def sr sp sr' sp' b h)
      next
        case w: (Inr nc)
        show ?thesis
          by (cases "nb = 0")
            (simp_all add: np_where_eq_def sr sp sr' sp' b h w index0_def
               upt_conv_Cons [of 0 nb] at)
      qed
    qed
  qed
qed


lemma build_output_Inr:
  assumes "\<forall>(f, rs, us) \<in> set zs.
     ''ID_2'' \<in> dom (map_of (properties f)) \<and> ''NAME_2'' \<in> dom (map_of (properties f))
     \<and> ''sum'' \<in> dom (map_of rs) \<and> ''sum'' \<in> dom (map_of us)"
  shows "build_output zs year = Inr (map (record_of year) zs)"
  using assms
proof (induction zs)
  case Nil
  then show ?case by simp
next
  case (Cons z zs)
  obtain f rs us where z: "z = (f, rs, us)" by (cases z)
  from Cons.prems have rest: "build_output zs year = Inr (map (record_of year) zs)"
    by (intro Cons.IH) simp
  from Cons.prems z obtain i n r u where
    "map_of (properties f) ''ID_2'' = Some i" "map_of (properties f) ''NAME_2'' = Some n"
    "map_of rs ''sum'' = Some r" "map_of us ''sum'' = Some u"
    by auto
  then show ?case
    unfolding z by (simp add: rest getitem_def record_of_def)
qed

lemma sum_cells_split:
  "(\<Sum>(i, j)\<leftarrow>cells. if m i j = (1::int) then p i j else (0::int))
   + (\<Sum>(i, j)\<leftarrow>cells. if m i j = 0 then p i j else 0)
   = (\<Sum>(i, j)\<leftarrow>cells. if m i j \<in> {0, 1} then p i j else 0)"
  by (induction cells) auto

lemma zone_cells_in_bounds:
  "\<forall>(i, j) \<in> set (zone_cells rasterize f t (nr, nc)). i < nr \<and> j < nc"
  by (auto simp: zone_cells_def)

text \<open>
  C1. With zonal sums as the statistic, for every population raster whose rows and columns
  are those of the mask and for every zone, the record's rural and urban sums add up to the
  population summed over the cells of the zone whose mask value is 0 or 1. (A zone that
  covers no cell has no sums; the total over it is 0.)
\<close>

theorem rural_plus_urban:
  assumes zs: "zonal_stats env = zonal_sums rasterize"
    and sr: "shape3 r_img = (rb, nr, nc)" and sp: "shape3 p_img = (pb, nr, nc)"
    and bc: "rb = pb \<or> rb = 1 \<or> pb = 1" and rb: "0 < rb" and pb: "0 < pb"
    and yr: "extract_year pop_raster = Inr year"
    and keys: "\<forall>f \<in> set features.
       ''ID_2'' \<in> dom (map_of (properties f)) \<and> ''NAME_2'' \<in> dom (map_of (properties f))"
  shows "\<exists>output. aggregate env features r_img p_img p_transform pop_raster = Inr output
     \<and> length output = length features
     \<and> (\<forall>k<length features. \<exists>rural_sum urban_sum.
          map_of (output ! k) ''rural_pop''
            = Some (if zone_cells rasterize (features ! k) p_transform (nr, nc) = []
                    then PyNone else PyInt rural_sum)
        \<and> map_of (output ! k) ''urban_pop''
            = Some (if zone_cells rasterize (features ! k) p_transform (nr, nc) = []
                    then PyNone else PyInt urban_sum)
        \<and> rural_sum + urban_sum
            = (\<Sum>(i, j)\<leftarrow>zone_cells rasterize (features ! k) p_transform (nr, nc).
                 if data3 r_img ! 0 ! i ! j \<in> {0, 1} then data3 p_img ! 0 ! i ! j else 0))"
proof -
  let ?g = "\<lambda>v i j. if data3 r_img ! 0 ! i ! j = v then data3 p_img ! 0 ! i ! j else (0::int)"
  let ?band = "\<lambda>v. Array2 (nr, nc) (map (\<lambda>i. map (?g v i) [0..<nc]) [0..<nr])"
  let ?cells = "\<lambda>f. zone_cells rasterize f p_transform (nr, nc)"
  let ?stats = "\<lambda>v. map (\<lambda>f. [(''sum'', zone_sum (?cells f) (?band v))]) features"
  let ?zs = "zip features (zip (?stats 1) (?stats 0))"
  obtain rural_pop where r: "np_where_eq r_img 1 p_img = Inr rural_pop"
    and r0: "index0 rural_pop = Inr (?band 1)"
    using np_where_eq_band0 [OF sr sp bc rb pb, of 1] by blast
  obtain urban_pop where u: "np_where_eq r_img 0 p_img = Inr urban_pop"
    and u0: "index0 urban_pop = Inr (?band 0)"
    using np_where_eq_band0 [OF sr sp bc rb pb, of 0] by blast
  have st: "zonal_stats env features (?band v) p_transform = Inr (?stats v)" for v
    by (simp add: zs zonal_sums_def)
  have "\<forall>(f, rs, us) \<in> set ?zs.
     ''ID_2'' \<in> dom (map_of (properties f)) \<and> ''NAME_2'' \<in> dom (map_of (properties f))
     \<and> ''sum'' \<in> dom (map_of rs) \<and> ''sum'' \<in> dom (map_of us)"
  proof (clarify, intro conjI)
    fix f rs us
    assume m: "(f, rs, us) \<in> set ?zs"
    then have "f \<in> set features" by (rule set_zip_leftD)
    with keys show "''ID_2'' \<in> dom (map_of (properties f))"
      and "''NAME_2'' \<in> dom (map_of (properties f))" by blast+
    from m have "(rs, us) \<in> set (zip (?stats 1) (?stats 0))" by (rule set_zip_rightD)
    then have "rs \<in> set (?stats 1)" and "us \<in> set (?stats 0)"
      by (blast dest: set_zip_leftD set_zip_rightD)+
    then show "''sum'' \<in> dom (map_of rs)" and "''sum'' \<in> dom (map_of us)"
      by auto
  qed
  then have bo: "build_output ?zs year = Inr (map (record_of year) ?zs)"
    by (rule build_output_Inr)
  have agg: "aggregate env features r_img p_img p_transform pop_raster
      = Inr (map (record_of year) ?zs)"
    unfolding aggregate_def by (simp only: r u r0 u0 st yr bo or_raise_simps)
  have len: "length (map (record_of year) ?zs) = length features"
    by simp
  have each: "\<exists>rural_sum urban_sum.
          map_of (map (record_of year) ?zs ! k) ''rural_pop''
            = Some (if ?cells (features ! k) = [] then PyNone else PyInt rural_sum)
        \<and> map_of (map (record_of year) ?zs ! k) ''urban_pop''
            = Some (if ?cells (features ! k) = [] then PyNone else PyInt urban_sum)
        \<and> rural_sum + urban_sum
            = (\<Sum>(i, j)\<leftarrow>?cells (features ! k).
                 if data3 r_img ! 0 ! i ! j \<in> {0, 1} then data3 p_img ! 0 ! i ! j else 0)"
    if k: "k < length features" for k
  proof -
    let ?c = "?cells (features ! k)"
    have rec: "map (record_of year) ?zs ! k
        = record_of year (features ! k,
            [(''sum'', zone_sum ?c (?band 1))], [(''sum'', zone_sum ?c (?band 0))])"
      using k by simp
    have sum: "sum_cells ?c (?band v) = (\<Sum>(i, j)\<leftarrow>?c. ?g v i j)" for v
      by (rule sum_cells_table [OF zone_cells_in_bounds])
    have "sum_cells ?c (?band 1) + sum_cells ?c (?band 0)
        = (\<Sum>(i, j)\<leftarrow>?c. if data3 r_img ! 0 ! i ! j \<in> {0, 1}
                           then data3 p_img ! 0 ! i ! j else 0)"
      unfolding sum by (rule sum_cells_split)
    then show ?thesis
      unfolding rec
      by (intro exI [of _ "sum_cells ?c (?band 1)"] exI [of _ "sum_cells ?c (?band 0)"])
        (simp add: record_of_def zone_sum_def)
  qed
  from agg len each show ?thesis by blast
qed

theorem rural_plus_urban_witness:
  "\<exists>output. aggregate (demo_env demo_box []) demo_zones demo_rural demo_pop2010 7
       ''data/lspop2010/hdr.adf'' = Inr output
     \<and> length output = 2
     \<and> (\<exists>rural_sum urban_sum.
          map_of (output ! 0) ''rural_pop'' = Some (PyInt rural_sum)
        \<and> map_of (output ! 0) ''urban_pop'' = Some (PyInt urban_sum)
        \<and> rural_sum + urban_sum = 150)"
proof -
  have zs: "zonal_stats (demo_env demo_box []) = zonal_sums demo_rasterize"
    by (simp add: demo_env_def)
  have sr: "shape3 demo_rural = (1, 2, 3)" and sp: "shape3 demo_pop2010 = (2, 2, 3)"
    by (simp_all add: demo_rural_def demo_pop2010_def)
  have bc: "(1::nat) = 2 \<or> (1::nat) = 1 \<or> (2::nat) = 1" and rb: "(0::nat) < 1" and pb: "(0::nat) < 2"
    by simp_all
  have yr: "extract_year ''data/lspop2010/hdr.adf'' = Inr ''2010''"
    by code_simp
  have keys: "\<forall>f \<in> set demo_zones.
       ''ID_2'' \<in> dom (map_of (properties f)) \<and> ''NAME_2'' \<in> dom (map_of (properties f))"
    by (simp add: demo_zones_def)
  have cells: "zone_cells demo_rasterize (demo_zones ! 0) 7 (2, 3)
      = [(0, 0), (0, 1), (0, 2), (1, 0), (1, 1)]"
    by (simp add: zone_cells_def demo_rasterize_def demo_zones_def)
  from rural_plus_urban [OF zs sr sp bc rb pb yr keys, of 7]
  obtain out where o: "aggregate (demo_env demo_box []) demo_zones demo_rural demo_pop2010 7
       ''data/lspop2010/hdr.adf'' = Inr out"
    and l: "length out = length demo_zones"
    and e: "\<forall>k<length demo_zones. \<exists>rural_sum urban_sum.
          map_of (out ! k) ''rural_pop''
            = Some (if zone_cells demo_rasterize (demo_zones ! k) 7 (2, 3) = []
                    then PyNone else PyInt rural_sum)
        \<and> map_of (out ! k) ''urban_pop''
            = Some (if zone_cells demo_rasterize (demo_zones ! k) 7 (2, 3) = []
                    then PyNone else PyInt urban_sum)
        \<and> rural_sum + urban_sum
            = (\<Sum>(i, j)\<leftarrow>zone_cells demo_rasterize (demo_zones ! k) 7 (2, 3).
                 if data3 demo_rural ! 0 ! i ! j \<in> {0, 1} then data3 demo_pop2010 ! 0 ! i ! j else 0)"
    by blast
  have n: "length demo_zones = 2" by (simp add: demo_zones_def)
  from e n have "\<exists>rural_sum urban_sum.
          map_of (out ! 0) ''rural_pop''
            = Some (if zone_cells demo_rasterize (demo_zones ! 0) 7 (2, 3) = []
                    then PyNone else PyInt rural_sum)
        \<and> map_of (out ! 0) ''urban_pop''
            = Some (if zone_cells demo_rasterize (demo_zones ! 0) 7 (2, 3) = []
                    then PyNone else PyInt urban_sum)
        \<and> rural_sum + urban_sum
            = (\<Sum>(i, j)\<leftarrow>zone_cells demo_rasterize (demo_zones ! 0) 7 (2, 3).
                 if data3 demo_rural ! 0 ! i ! j \<in> {0, 1} then data3 demo_pop2010 ! 0 ! i ! j else 0)"
    by simp
  then have "\<exists>rural_sum urban_sum.
          map_of (out ! 0) ''rural_pop'' = Some (PyInt rural_sum)
        \<and> map_of (out ! 0) ''urban_pop'' = Some (PyInt urban_sum)
        \<and> rural_sum + urban_sum = 150"
    unfolding cells by (simp add: demo_rural_def demo_pop2010_def)
  with o l n show ?thesis by auto
qed

section \<open>The records of one raster\<close>

lemma or_raise_InrD: "or_raise r f = Inr y \<Longrightarrow> \<exists>x. r = Inr x \<and> f x = Inr y"
  by (cases r) simp_all

lemma getitem_InrD: "getitem d k = Inr v \<Longrightarrow> map_of d k = Some v"
  by (auto simp: getitem_def split: option.splits)

lemma build_output_InrD:
  "build_output zs year = Inr out \<Longrightarrow>
   length out = length zs \<and>
   (\<forall>k<length zs. \<exists>id2 name2 rsum usum.
       map_of (properties (fst (zs ! k))) ''ID_2'' = Some id2
     \<and> map_of (properties (fst (zs ! k))) ''NAME_2'' = Some name2
     \<and> map_of (fst (snd (zs ! k))) ''sum'' = Some rsum
     \<and> map_of (snd (snd (zs ! k))) ''sum'' = Some usum
     \<and> out ! k = [(''id'', id2), (''name'', name2), (''year'', PyStr year),
                   (''rural_pop'', rsum), (''urban_pop'', usum)])"
proof (induction zs arbitrary: out)
  case Nil
  then show ?case by simp
next
  case (Cons z zs)
  obtain f rs us where z: "z = (f, rs, us)" by (cases z)
  from Cons.prems [unfolded z build_output.simps]
  obtain id2 name2 rsum usum rest where
    g: "getitem (properties f) ''ID_2'' = Inr id2" "getitem (properties f) ''NAME_2'' = Inr name2"
       "getitem rs ''sum'' = Inr rsum" "getitem us ''sum'' = Inr usum"
    and r: "build_output zs year = Inr rest"
    and o: "out = [(''id'', id2), (''name'', name2), (''year'', PyStr year),
                   (''rural_pop'', rsum), (''urban_pop'', usum)] # rest"
    by (auto dest!: or_raise_InrD)
  note ih = Cons.IH [OF r]
  show ?case
  proof (intro conjI allI impI)
    show "length out = length (z # zs)" using ih o by simp
  next
    fix k assume "k < length (z # zs)"
    then show "\<exists>id2 name2 rsum usum.
       map_of (properties (fst ((z # zs) ! k))) ''ID_2'' = Some id2
     \<and> map_of (properties (fst ((z # zs) ! k))) ''NAME_2'' = Some name2
     \<and> map_of (fst (snd ((z # zs) ! k))) ''sum'' = Some rsum
     \<and> map_of (snd (snd ((z # zs) ! k))) ''sum'' = Some usum
     \<and> out ! k = [(''id'', id2), (''name'', name2), (''year'', PyStr year),
                   (''rural_pop'', rsum), (''urban_pop'', usum)]"
      using ih g [THEN getitem_InrD] o z by (cases k) auto
  qed
qed

lemma pop_year_InrD:
  assumes "snd (pop_year env clip_box r_img features pop_raster) = Inr out"
  shows "\<exists>pop p_img p_transform rural_pop urban_pop rural0 urban0 rural_stats urban_stats year.
      rasterio_open env pop_raster = Inr pop
    \<and> mask_crop env pop clip_box = Inr (p_img, p_transform)
    \<and> np_where_eq r_img 1 p_img = Inr rural_pop
    \<and> np_where_eq r_img 0 p_img = Inr urban_pop
    \<and> index0 rural_pop = Inr rural0
    \<and> zonal_stats env features rural0 p_transform = Inr rural_stats
    \<and> index0 urban_pop = Inr urban0
    \<and> zonal_stats env features urban0 p_transform = Inr urban_stats
    \<and> extract_year pop_raster = Inr year
    \<and> build_output (zip features (zip rural_stats urban_stats)) year = Inr out"
proof -
  from assms obtain pop where p: "rasterio_open env pop_raster = Inr pop"
    by (cases "rasterio_open env pop_raster") (simp_all add: pop_year_def)
  with assms have "or_raise (mask_crop env pop clip_box) (\<lambda>(p_img, p_transform).
             aggregate env features r_img p_img p_transform pop_raster) = Inr out"
    by (simp add: pop_year_def)
  then obtain p_img p_transform where m: "mask_crop env pop clip_box = Inr (p_img, p_transform)"
    and a: "aggregate env features r_img p_img p_transform pop_raster = Inr out"
    by (auto dest!: or_raise_InrD)
  from a [unfolded aggregate_def] p m show ?thesis
    by (auto dest!: or_raise_InrD)
qed

section \<open>The small data set, evaluated\<close>

lemma demo_aggregate:
  "aggregate (demo_env boxes paths) demo_zones demo_rural demo_pop2000 7 ''data/lspop2000/hdr.adf''
     = Inr (demo_records ''data/lspop2000/hdr.adf'')"
  "aggregate (demo_env boxes paths) demo_zones demo_rural demo_pop2010 7 ''data/lspop2010/hdr.adf''
     = Inr (demo_records ''data/lspop2010/hdr.adf'')"
proof -
  have a: "aggregate (demo_env boxes paths) = aggregate (demo_env [] [])"
    by (intro ext) (simp add: aggregate_def demo_env_def)
  show "aggregate (demo_env boxes paths) demo_zones demo_rural demo_pop2000 7 ''data/lspop2000/hdr.adf''
     = Inr (demo_records ''data/lspop2000/hdr.adf'')"
    unfolding a by code_simp
  show "aggregate (demo_env boxes paths) demo_zones demo_rural demo_pop2010 7 ''data/lspop2010/hdr.adf''
     = Inr (demo_records ''data/lspop2010/hdr.adf'')"
    unfolding a by code_simp
qed

lemma demo_loaders:
  "fiona_open (demo_env boxes paths) ''data/ca_boundingbox.shp'' = Inr boxes"
  "fiona_open (demo_env boxes paths) ''data/GTM_adm2.shp'' = Inr demo_zones"
  "rasterio_open (demo_env boxes paths) p = Inr p"
  "mask_crop (demo_env boxes paths) = demo_mask"
  "open_write (demo_env boxes paths) ''rural_urban_pop.csv'' = None"
  "glob (demo_env boxes paths) ''data/lspop*/hdr.adf'' = paths"
  "zonal_stats (demo_env boxes paths) = zonal_sums demo_rasterize"
  by (simp_all add: demo_env_def)

lemma demo_pop_year:
  "pop_year (demo_env boxes paths) [0] demo_rural demo_zones ''data/lspop2000/hdr.adf''
     = ([(''data/lspop2000/hdr.adf'', [0])], Inr (demo_records ''data/lspop2000/hdr.adf''))"
  "pop_year (demo_env boxes paths) [0] demo_rural demo_zones ''data/lspop2010/hdr.adf''
     = ([(''data/lspop2010/hdr.adf'', [0])], Inr (demo_records ''data/lspop2010/hdr.adf''))"
  "pop_year (demo_env boxes paths) [0] demo_rural demo_zones ''data/lspop2005/hdr.adf''
     = ([(''data/lspop2005/hdr.adf'', [0])], Inl (LibraryError ''not a raster''))"
  by (simp_all add: pop_year_def demo_loaders demo_mask_def demo_aggregate)

lemma demo_mask_rural:
  "mask_crop (demo_env boxes paths) ''data/rural.tif'' (map geometry demo_box) = Inr (demo_rural, 7)"
  by (simp add: demo_loaders demo_mask_def demo_box_def)

lemma demo_lockstep:
  "\<forall>a t stats. zonal_stats (demo_env boxes paths) demo_zones a t = Inr stats
     \<longrightarrow> length stats = length demo_zones"
  by (auto simp: demo_env_def zonal_sums_def)

lemma demo_clip: "map geometry demo_box = [0]"
  by (simp add: demo_box_def)

lemma sort_demo_paths:
  "sort [''data/lspop2010/hdr.adf'', ''data/lspop2000/hdr.adf'']
     = [''data/lspop2000/hdr.adf'', ''data/lspop2010/hdr.adf'']"
  "sort [''data/lspop2010/hdr.adf'', ''data/lspop2005/hdr.adf'', ''data/lspop2000/hdr.adf'']
     = [''data/lspop2000/hdr.adf'', ''data/lspop2005/hdr.adf'', ''data/lspop2010/hdr.adf'']"
  by code_simp+

section \<open>One record per zone\<close>

lemma pop_year_lockstep:
  assumes ok: "snd (pop_year env clip_box r_img features pop_raster) = Inr output"
    and lockstep: "\<forall>a t stats. zonal_stats env features a t = Inr stats
        \<longrightarrow> length stats = length features"
  shows "length output = length features
    \<and> (\<exists>pop p_img p_transform rural_pop urban_pop rural0 urban0 rural_stats urban_stats year.
          rasterio_open env pop_raster = Inr pop
        \<and> mask_crop env pop clip_box = Inr (p_img, p_transform)
        \<and> np_where_eq r_img 1 p_img = Inr rural_pop \<and> index0 rural_pop = Inr rural0
        \<and> np_where_eq r_img 0 p_img = Inr urban_pop \<and> index0 urban_pop = Inr urban0
        \<and> zonal_stats env features rural0 p_transform = Inr rural_stats
        \<and> zonal_stats env features urban0 p_transform = Inr urban_stats
        \<and> extract_year pop_raster = Inr year
        \<and> (\<forall>k<length features. \<exists>id2 name2 rsum usum.
              map_of (properties (features ! k)) ''ID_2'' = Some id2
            \<and> map_of (properties (features ! k)) ''NAME_2'' = Some name2
            \<and> map_of (rural_stats ! k) ''sum'' = Some rsum
            \<and> map_of (urban_stats ! k) ''sum'' = Some usum
            \<and> output ! k = [(''id'', id2), (''name'', name2), (''year'', PyStr year),
                             (''rural_pop'', rsum), (''urban_pop'', usum)]))"
proof -
  from pop_year_InrD [OF ok]
  obtain pop p_img p_transform rural_pop urban_pop rural0 urban0 rural_stats urban_stats year
    where steps: "rasterio_open env pop_raster = Inr pop"
      "mask_crop env pop clip_box = Inr (p_img, p_transform)"
      "np_where_eq r_img 1 p_img = Inr rural_pop" "index0 rural_pop = Inr rural0"
      "np_where_eq r_img 0 p_img = Inr urban_pop" "index0 urban_pop = Inr urban0"
      "extract_year pop_raster = Inr year"
    and rs: "zonal_stats env features rural0 p_transform = Inr rural_stats"
    and us: "zonal_stats env features urban0 p_transform = Inr urban_stats"
    and bo: "build_output (zip features (zip rural_stats urban_stats)) year = Inr output"
    by blast
  let ?zs = "zip features (zip rural_stats urban_stats)"
  from lockstep rs us have len: "length rural_stats = length features"
    "length urban_stats = length features" by blast+
  then have lz: "length ?zs = length features" by simp
  from build_output_InrD [OF bo, unfolded lz] have lo: "length output = length features"
    and each: "\<forall>k<length features. \<exists>id2 name2 rsum usum.
       map_of (properties (fst (?zs ! k))) ''ID_2'' = Some id2
     \<and> map_of (properties (fst (?zs ! k))) ''NAME_2'' = Some name2
     \<and> map_of (fst (snd (?zs ! k))) ''sum'' = Some rsum
     \<and> map_of (snd (snd (?zs ! k))) ''sum'' = Some usum
     \<and> output ! k = [(''id'', id2), (''name'', name2), (''year'', PyStr year),
                   (''rural_pop'', rsum), (''urban_pop'', usum)]"
    by blast+
  have "\<forall>k<length features. \<exists>id2 name2 rsum usum.
              map_of (properties (features ! k)) ''ID_2'' = Some id2
            \<and> map_of (properties (features ! k)) ''NAME_2'' = Some name2
            \<and> map_of (rural_stats ! k) ''sum'' = Some rsum
            \<and> map_of (urban_stats ! k) ''sum'' = Some usum
            \<and> output ! k = [(''id'', id2), (''name'', name2), (''year'', PyStr year),
                             (''rural_pop'', rsum), (''urban_pop'', usum)]"
  proof (intro allI impI)
    fix k assume k: "k < length features"
    with len have "?zs ! k = (features ! k, rural_stats ! k, urban_stats ! k)" by simp
    with each k show "\<exists>id2 name2 rsum usum.
              map_of (properties (features ! k)) ''ID_2'' = Some id2
            \<and> map_of (properties (features ! k)) ''NAME_2'' = Some name2
            \<and> map_of (rural_stats ! k) ''sum'' = Some rsum
            \<and> map_of (urban_stats ! k) ''sum'' = Some usum
            \<and> output ! k = [(''id'', id2), (''name'', name2), (''year'', PyStr year),
                             (''rural_pop'', rsum), (''urban_pop'', usum)]"
      by (metis fst_conv snd_conv)
  qed
  with lo steps rs us show ?thesis by blast
qed

text \<open>
  C2. Whenever the records of a population raster are produced and the zonal statistics
  return one statistic per zone, there is exactly one record per zone feature, in the order
  of the zone list: record \<open>k\<close> pairs the attributes of zone \<open>k\<close> with the \<open>k\<close>-th rural
  and \<open>k\<close>-th urban statistic.
\<close>

theorem one_record_per_zone:
  assumes ok: "snd (pop_year env clip_box r_img features pop_raster) = Inr output"
    and lockstep: "\<forall>a t stats. zonal_stats env features a t = Inr stats
        \<longrightarrow> length stats = length features"
  shows "length output = length features
    \<and> (\<exists>pop p_img p_transform rural_pop urban_pop rural0 urban0 rural_stats urban_stats year.
          rasterio_open env pop_raster = Inr pop
        \<and> mask_crop env pop clip_box = Inr (p_img, p_transform)
        \<and> np_where_eq r_img 1 p_img = Inr rural_pop \<and> index0 rural_pop = Inr rural0
        \<and> np_where_eq r_img 0 p_img = Inr urban_pop \<and> index0 urban_pop = Inr urban0
        \<and> zonal_stats env features rural0 p_transform = Inr rural_stats
        \<and> zonal_stats env features urban0 p_transform = Inr urban_stats
        \<and> extract_year pop_raster = Inr year
        \<and> (\<forall>k<length features. \<exists>id2 name2 rsum usum.
              map_of (properties (features ! k)) ''ID_2'' = Some id2
            \<and> map_of (properties (features ! k)) ''NAME_2'' = Some name2
            \<and> map_of (rural_stats ! k) ''sum'' = Some rsum
            \<and> map_of (urban_stats ! k) ''sum'' = Some usum
            \<and> output ! k = [(''id'', id2), (''name'', name2), (''year'', PyStr year),
                             (''rural_pop'', rsum), (''urban_pop'', usum)]))"
  using ok lockstep by (rule pop_year_lockstep)

theorem one_record_per_zone_witness:
  "length (demo_records ''data/lspop2000/hdr.adf'') = length demo_zones
   \<and> (\<exists>id2 name2 rsum usum.
         map_of (properties (demo_zones ! 1)) ''ID_2'' = Some id2
       \<and> map_of (properties (demo_zones ! 1)) ''NAME_2'' = Some name2
       \<and> demo_records ''data/lspop2000/hdr.adf'' ! 1
            = [(''id'', id2), (''name'', name2), (''year'', PyStr ''2000''),
               (''rural_pop'', rsum), (''urban_pop'', usum)])"
proof -
  have ok: "snd (pop_year (demo_env demo_box []) [0] demo_rural demo_zones ''data/lspop2000/hdr.adf'')
      = Inr (demo_records ''data/lspop2000/hdr.adf'')"
    by (simp add: demo_pop_year)
  have y: "extract_year ''data/lspop2000/hdr.adf'' = Inr ''2000''"
    by code_simp
  have n: "(1::nat) < length demo_zones"
    by (simp add: demo_zones_def)
  from one_record_per_zone [OF ok demo_lockstep] y n show ?thesis
    by (simp only: sum.inject) blast
qed

section \<open>The loop over the rasters\<close>

lemma for_loop_append_ok:
  assumes "\<forall>p \<in> set xs. snd (pop_year env clip_box r_img features p) = Inr (recs p)"
  shows "for_loop env clip_box r_img features (xs @ ys) w
     = for_loop env clip_box r_img features ys
         (w\<lparr>mask_calls := mask_calls w
               @ concat (map (\<lambda>p. fst (pop_year env clip_box r_img features p)) xs),
            csv_file := map_option
               (\<lambda>rows. rows @ concat (map (\<lambda>p. map dict_to_list (recs p)) xs)) (csv_file w)\<rparr>)"
  using assms
proof (induction xs arbitrary: w)
  case Nil
  then show ?case by (simp add: option.map_ident)
next
  case (Cons x xs)
  obtain calls where px: "pop_year env clip_box r_img features x = (calls, Inr (recs x))"
    using Cons.prems by (cases "pop_year env clip_box r_img features x") auto
  have rest: "\<forall>p \<in> set xs. snd (pop_year env clip_box r_img features p) = Inr (recs p)"
    using Cons.prems by simp
  show ?case
    by (simp add: px Cons.IH [OF rest] writerows_def option.map_comp comp_def)
qed

lemma main_reaches_loop:
  assumes "fiona_open env ''data/ca_boundingbox.shp'' = Inr boundingbox"
    and "fiona_open env ''data/GTM_adm2.shp'' = Inr features"
    and "rasterio_open env ''data/rural.tif'' = Inr rural"
    and "mask_crop env rural (map geometry boundingbox) = Inr (r_img, r_transform)"
    and "open_write env ''rural_urban_pop.csv'' = None"
  shows "main env w
     = for_loop env (map geometry boundingbox) r_img features (get_pop_rasters env)
         (w\<lparr>mask_calls := mask_calls w @ [(rural, map geometry boundingbox)],
            csv_file := Some [header_row]\<rparr>)"
  using assms by (simp add: main_def zones_def rural_region_def)





lemma dict_to_list_record:
  "dict_to_list [(''id'', id2), (''name'', name2), (''year'', y),
                 (''rural_pop'', rsum), (''urban_pop'', usum)] = [id2, name2, y, rsum, usum]"
  by (simp add: dict_to_list_def fieldnames_def)

lemma for_loop_all_ok:
  assumes "\<forall>p \<in> set xs. snd (pop_year env clip_box r_img features p) = Inr (recs p)"
  shows "for_loop env clip_box r_img features xs w
     = (w\<lparr>mask_calls := mask_calls w
               @ concat (map (\<lambda>p. fst (pop_year env clip_box r_img features p)) xs),
            csv_file := map_option
               (\<lambda>rows. rows @ concat (map (\<lambda>p. map dict_to_list (recs p)) xs)) (csv_file w)\<rparr>,
        None)"
  using for_loop_append_ok [OF assms, of "[]" w] by simp




section \<open>Raster discovery\<close>

lemma sort_three_paths:
  "sort [''data/lspop1998/hdr.adf'', ''data/lspop2000/hdr.adf'', ''data/lspop1999/hdr.adf'']
     = [''data/lspop1998/hdr.adf'', ''data/lspop1999/hdr.adf'', ''data/lspop2000/hdr.adf'']"
  by code_simp

text \<open>
  C6. Raster discovery returns the matches of \<^verbatim>\<open>data/lspop*/hdr.adf\<close> sorted lexically; the
  directories \<^verbatim>\<open>lspop1998\<close>, \<^verbatim>\<open>lspop2000\<close>, \<^verbatim>\<open>lspop1999\<close>, in whatever order \<^verbatim>\<open>glob\<close> lists
  them, come back as 1998, 1999, 2000. With no match the list is empty and the run, once the
  inputs load, ends normally with the header row alone in the file.
\<close>

theorem raster_discovery:
  "sorted (get_pop_rasters env)
   \<and> mset (get_pop_rasters env) = mset (glob env ''data/lspop*/hdr.adf'')
   \<and> (mset (glob env ''data/lspop*/hdr.adf'')
        = mset [''data/lspop1998/hdr.adf'', ''data/lspop2000/hdr.adf'', ''data/lspop1999/hdr.adf'']
      \<longrightarrow> get_pop_rasters env
        = [''data/lspop1998/hdr.adf'', ''data/lspop1999/hdr.adf'', ''data/lspop2000/hdr.adf''])
   \<and> (glob env ''data/lspop*/hdr.adf'' = [] \<longrightarrow>
        get_pop_rasters env = []
      \<and> (\<forall>boundingbox features rural r_img r_transform.
            fiona_open env ''data/ca_boundingbox.shp'' = Inr boundingbox
          \<and> fiona_open env ''data/GTM_adm2.shp'' = Inr features
          \<and> rasterio_open env ''data/rural.tif'' = Inr rural
          \<and> mask_crop env rural (map geometry boundingbox) = Inr (r_img, r_transform)
          \<and> open_write env ''rural_urban_pop.csv'' = None
          \<longrightarrow> snd (main env w) = None
            \<and> csv_file (fst (main env w))
                = Some [[PyStr ''id'', PyStr ''name'', PyStr ''year'', PyStr ''rural_pop'',
                         PyStr ''urban_pop'']]))"
proof -
  let ?paths = "glob env ''data/lspop*/hdr.adf''"
  have gp: "get_pop_rasters env = sort ?paths"
    by (simp add: get_pop_rasters_def pop_dir_def)
  have s: "sorted (get_pop_rasters env)" and m: "mset (get_pop_rasters env) = mset ?paths"
    by (simp_all add: gp)
  have three: "get_pop_rasters env
        = [''data/lspop1998/hdr.adf'', ''data/lspop1999/hdr.adf'', ''data/lspop2000/hdr.adf'']"
    if h: "mset ?paths
        = mset [''data/lspop1998/hdr.adf'', ''data/lspop2000/hdr.adf'', ''data/lspop1999/hdr.adf'']"
  proof -
    have "sort ?paths
       = sort [''data/lspop1998/hdr.adf'', ''data/lspop2000/hdr.adf'', ''data/lspop1999/hdr.adf'']"
      by (rule properties_for_sort) (simp_all add: h)
    then show ?thesis unfolding gp sort_three_paths .
  qed
  have none: "get_pop_rasters env = []" if "?paths = []"
    using that by (simp add: gp)
  have hdr: "snd (main env w) = None
            \<and> csv_file (fst (main env w))
                = Some [[PyStr ''id'', PyStr ''name'', PyStr ''year'', PyStr ''rural_pop'',
                         PyStr ''urban_pop'']]"
    if e: "?paths = []"
      and l: "fiona_open env ''data/ca_boundingbox.shp'' = Inr boundingbox
          \<and> fiona_open env ''data/GTM_adm2.shp'' = Inr features
          \<and> rasterio_open env ''data/rural.tif'' = Inr rural
          \<and> mask_crop env rural (map geometry boundingbox) = Inr (r_img, r_transform)
          \<and> open_write env ''rural_urban_pop.csv'' = None"
    for boundingbox features rural r_img r_transform
  proof -
    from l have "main env w
     = for_loop env (map geometry boundingbox) r_img features (get_pop_rasters env)
         (w\<lparr>mask_calls := mask_calls w @ [(rural, map geometry boundingbox)],
            csv_file := Some [header_row]\<rparr>)"
      by (intro main_reaches_loop) blast+
    then show ?thesis
      by (simp add: none [OF e] header_row_def fieldnames_def)
  qed
  from s m three none hdr show ?thesis by blast
qed

theorem raster_discovery_witness:
  "get_pop_rasters (demo_env demo_box
      [''data/lspop1999/hdr.adf'', ''data/lspop1998/hdr.adf'', ''data/lspop2000/hdr.adf''])
     = [''data/lspop1998/hdr.adf'', ''data/lspop1999/hdr.adf'', ''data/lspop2000/hdr.adf'']
   \<and> snd (main (demo_env demo_box []) no_file) = None
   \<and> csv_file (fst (main (demo_env demo_box []) no_file))
       = Some [[PyStr ''id'', PyStr ''name'', PyStr ''year'', PyStr ''rural_pop'',
                PyStr ''urban_pop'']]"
proof -
  let ?env = "demo_env demo_box
      [''data/lspop1999/hdr.adf'', ''data/lspop1998/hdr.adf'', ''data/lspop2000/hdr.adf'']"
  have m: "mset (glob ?env ''data/lspop*/hdr.adf'')
        = mset [''data/lspop1998/hdr.adf'', ''data/lspop2000/hdr.adf'', ''data/lspop1999/hdr.adf'']"
    by (simp add: demo_loaders)
  have three: "get_pop_rasters ?env
     = [''data/lspop1998/hdr.adf'', ''data/lspop1999/hdr.adf'', ''data/lspop2000/hdr.adf'']"
    using raster_discovery [of ?env] m by blast
  have e: "glob (demo_env demo_box []) ''data/lspop*/hdr.adf'' = []"
    by (simp add: demo_loaders)
  have l: "fiona_open (demo_env demo_box []) ''data/ca_boundingbox.shp'' = Inr demo_box
          \<and> fiona_open (demo_env demo_box []) ''data/GTM_adm2.shp'' = Inr demo_zones
          \<and> rasterio_open (demo_env demo_box []) ''data/rural.tif'' = Inr ''data/rural.tif''
          \<and> mask_crop (demo_env demo_box []) ''data/rural.tif'' (map geometry demo_box)
              = Inr (demo_rural, 7)
          \<and> open_write (demo_env demo_box []) ''rural_urban_pop.csv'' = None"
    by (intro conjI demo_loaders demo_mask_rural)
  have "snd (main (demo_env demo_box []) no_file) = None
   \<and> csv_file (fst (main (demo_env demo_box []) no_file))
       = Some [[PyStr ''id'', PyStr ''name'', PyStr ''year'', PyStr ''rural_pop'',
                PyStr ''urban_pop'']]"
    using raster_discovery [of "demo_env demo_box []" no_file] e l by blast
  with three show ?thesis by blast
qed

section \<open>Failure of one raster\<close>

lemma pop_year_open_fails:
  "rasterio_open env p = Inl e \<Longrightarrow> pop_year env clip_box r_img features p = ([], Inl e)"
  by (simp add: pop_year_def)

lemma for_loop_stops:
  assumes "snd (pop_year env clip_box r_img features p) = Inl e"
  shows "for_loop env clip_box r_img features (p # later) w
     = (w\<lparr>mask_calls := mask_calls w @ fst (pop_year env clip_box r_img features p)\<rparr>, Some e)"
  using assms by (cases "pop_year env clip_box r_img features p") simp

text \<open>
  C7. When the processing of a raster raises, the run ends with that same exception (the
  one \<^verbatim>\<open>rasterio.open\<close>, \<^verbatim>\<open>mask\<close> or \<^verbatim>\<open>zonal_stats\<close> raised): the file keeps the header and
  the rows of the rasters before it, nothing of that raster or a later one is written, and
  no later raster is opened or clipped.
\<close>

theorem failure_aborts_run:
  assumes bb: "fiona_open env ''data/ca_boundingbox.shp'' = Inr boundingbox"
    and zf: "fiona_open env ''data/GTM_adm2.shp'' = Inr features"
    and ro: "rasterio_open env ''data/rural.tif'' = Inr rural"
    and mk: "mask_crop env rural (map geometry boundingbox) = Inr (r_img, r_transform)"
    and ow: "open_write env ''rural_urban_pop.csv'' = None"
    and order: "get_pop_rasters env = earlier @ p # later"
    and ok: "\<forall>q \<in> set earlier.
       snd (pop_year env (map geometry boundingbox) r_img features q) = Inr (recs q)"
    and fails: "snd (pop_year env (map geometry boundingbox) r_img features p) = Inl e"
  shows "snd (main env w) = Some e
    \<and> csv_file (fst (main env w))
        = Some (header_row # concat (map (\<lambda>q. map dict_to_list (recs q)) earlier))
    \<and> mask_calls (fst (main env w))
        = mask_calls w @ (rural, map geometry boundingbox)
            # concat (map (\<lambda>q. fst (pop_year env (map geometry boundingbox) r_img features q))
                        (earlier @ [p]))
    \<and> (\<forall>e'. rasterio_open env p = Inl e' \<longrightarrow> e = e')
    \<and> (\<forall>pop e'. rasterio_open env p = Inr pop
          \<and> mask_crop env pop (map geometry boundingbox) = Inl e' \<longrightarrow> e = e')
    \<and> (\<forall>pop p_img p_transform rural_pop urban_pop rural0 e'.
          rasterio_open env p = Inr pop
          \<and> mask_crop env pop (map geometry boundingbox) = Inr (p_img, p_transform)
          \<and> np_where_eq r_img 1 p_img = Inr rural_pop
          \<and> np_where_eq r_img 0 p_img = Inr urban_pop
          \<and> index0 rural_pop = Inr rural0
          \<and> zonal_stats env features rural0 p_transform = Inl e' \<longrightarrow> e = e')
    \<and> (\<forall>pop p_img p_transform rural_pop urban_pop rural0 rural_stats urban0 e'.
          rasterio_open env p = Inr pop
          \<and> mask_crop env pop (map geometry boundingbox) = Inr (p_img, p_transform)
          \<and> np_where_eq r_img 1 p_img = Inr rural_pop
          \<and> np_where_eq r_img 0 p_img = Inr urban_pop
          \<and> index0 rural_pop = Inr rural0
          \<and> zonal_stats env features rural0 p_transform = Inr rural_stats
          \<and> index0 urban_pop = Inr urban0
          \<and> zonal_stats env features urban0 p_transform = Inl e' \<longrightarrow> e = e')"
proof -
  let ?clip = "map geometry boundingbox"
  have run: "main env w
     = for_loop env ?clip r_img features (earlier @ p # later)
         (w\<lparr>mask_calls := mask_calls w @ [(rural, ?clip)], csv_file := Some [header_row]\<rparr>)"
    unfolding order [symmetric] by (rule main_reaches_loop [OF bb zf ro mk ow])
  have res: "snd (main env w) = Some e"
    and csv: "csv_file (fst (main env w))
        = Some (header_row # concat (map (\<lambda>q. map dict_to_list (recs q)) earlier))"
    and calls: "mask_calls (fst (main env w))
        = mask_calls w @ (rural, ?clip)
            # concat (map (\<lambda>q. fst (pop_year env ?clip r_img features q)) (earlier @ [p]))"
    unfolding run for_loop_append_ok [OF ok] for_loop_stops [OF fails] by simp_all
  have a: "e = e'" if "rasterio_open env p = Inl e'" for e'
    using fails pop_year_open_fails [OF that, of ?clip r_img features] by simp
  have b: "e = e'" if "rasterio_open env p = Inr pop \<and> mask_crop env pop ?clip = Inl e'" for pop e'
    using fails that by (simp add: pop_year_def)
  have c: "e = e'" if "rasterio_open env p = Inr pop
          \<and> mask_crop env pop ?clip = Inr (p_img, p_transform)
          \<and> np_where_eq r_img 1 p_img = Inr rural_pop
          \<and> np_where_eq r_img 0 p_img = Inr urban_pop
          \<and> index0 rural_pop = Inr rural0
          \<and> zonal_stats env features rural0 p_transform = Inl e'"
    for pop p_img p_transform rural_pop urban_pop rural0 e'
    using fails that by (simp add: pop_year_def aggregate_def)
  have d: "e = e'" if "rasterio_open env p = Inr pop
          \<and> mask_crop env pop ?clip = Inr (p_img, p_transform)
          \<and> np_where_eq r_img 1 p_img = Inr rural_pop
          \<and> np_where_eq r_img 0 p_img = Inr urban_pop
          \<and> index0 rural_pop = Inr rural0
          \<and> zonal_stats env features rural0 p_transform = Inr rural_stats
          \<and> index0 urban_pop = Inr urban0
          \<and> zonal_stats env features urban0 p_transform = Inl e'"
    for pop p_img p_transform rural_pop urban_pop rural0 rural_stats urban0 e'
    using fails that by (simp add: pop_year_def aggregate_def)
  from res csv calls a b c d show ?thesis by blast
qed

theorem failure_aborts_run_witness:
  "snd (main (demo_env demo_box
      [''data/lspop2010/hdr.adf'', ''data/lspop2005/hdr.adf'', ''data/lspop2000/hdr.adf'']) no_file)
     = Some (LibraryError ''not a raster'')
   \<and> csv_file (fst (main (demo_env demo_box
      [''data/lspop2010/hdr.adf'', ''data/lspop2005/hdr.adf'', ''data/lspop2000/hdr.adf'']) no_file))
     = Some [[PyStr ''id'', PyStr ''name'', PyStr ''year'', PyStr ''rural_pop'', PyStr ''urban_pop''],
             [PyInt 101, PyStr ''Coban'', PyStr ''2000'', PyInt 9, PyInt 6],
             [PyInt 102, PyStr ''Flores'', PyStr ''2000'', PyInt 0, PyInt 6]]"
proof -
  let ?env = "demo_env demo_box
      [''data/lspop2010/hdr.adf'', ''data/lspop2005/hdr.adf'', ''data/lspop2000/hdr.adf'']"
  have order: "get_pop_rasters ?env
      = [''data/lspop2000/hdr.adf''] @ ''data/lspop2005/hdr.adf'' # [''data/lspop2010/hdr.adf'']"
    by (simp add: get_pop_rasters_def pop_dir_def demo_loaders sort_demo_paths)
  have ok: "\<forall>q \<in> set [''data/lspop2000/hdr.adf''].
       snd (pop_year ?env (map geometry demo_box) demo_rural demo_zones q) = Inr (demo_records q)"
    by (simp add: demo_clip demo_pop_year)
  have fails: "snd (pop_year ?env (map geometry demo_box) demo_rural demo_zones
       ''data/lspop2005/hdr.adf'') = Inl (LibraryError ''not a raster'')"
    by (simp add: demo_clip demo_pop_year)
  from failure_aborts_run [OF demo_loaders(1) demo_loaders(2) demo_loaders(3) demo_mask_rural
      demo_loaders(5) order ok fails, of no_file]
  have "snd (main ?env no_file) = Some (LibraryError ''not a raster'')"
    and "csv_file (fst (main ?env no_file))
        = Some (header_row # concat (map (\<lambda>q. map dict_to_list (demo_records q))
             [''data/lspop2000/hdr.adf'']))"
    by blast+
  then show ?thesis
    by (simp add: header_row_def fieldnames_def demo_records_def dict_to_list_record)
qed

section \<open>The clip geometry\<close>

lemma pop_year_calls:
  "fst (pop_year env clip_box r_img features p)
     = (case rasterio_open env p of Inl e \<Rightarrow> [] | Inr pop \<Rightarrow> [(pop, clip_box)])"
  by (simp add: pop_year_def split: sum.splits)

lemma for_loop_calls:
  "\<exists>calls. mask_calls (fst (for_loop env clip_box r_img features ps w)) = mask_calls w @ calls
     \<and> (\<forall>c \<in> set calls. snd c = clip_box)"
proof (induction ps arbitrary: w)
  case Nil
  then show ?case by simp
next
  case (Cons p ps)
  obtain calls res where py: "pop_year env clip_box r_img features p = (calls, res)"
    by (cases "pop_year env clip_box r_img features p")
  have c: "\<forall>c \<in> set calls. snd c = clip_box"
    using pop_year_calls [of env clip_box r_img features p] py
    by (auto split: sum.splits)
  show ?case
  proof (cases res)
    case (Inl e)
    with py c show ?thesis by simp
  next
    case (Inr out)
    from Cons.IH [of "writerows (w\<lparr>mask_calls := mask_calls w @ calls\<rparr>) out"]
    obtain more where
      "mask_calls (fst (for_loop env clip_box r_img features ps
          (writerows (w\<lparr>mask_calls := mask_calls w @ calls\<rparr>) out)))
        = (mask_calls w @ calls) @ more"
      and "\<forall>c \<in> set more. snd c = clip_box"
      by (auto simp: writerows_def)
    with py Inr c show ?thesis
      by (intro exI [of _ "calls @ more"]) auto
  qed
qed

lemma for_loop_None_D:
  "snd (for_loop env clip_box r_img features ps w) = None \<Longrightarrow>
   \<forall>p \<in> set ps. \<exists>out. snd (pop_year env clip_box r_img features p) = Inr out"
proof (induction ps arbitrary: w)
  case Nil
  then show ?case by simp
next
  case (Cons p ps)
  obtain calls res where py: "pop_year env clip_box r_img features p = (calls, res)"
    by (cases "pop_year env clip_box r_img features p")
  show ?case
  proof (cases res)
    case (Inl e)
    with py Cons.prems show ?thesis by simp
  next
    case (Inr out)
    with py Cons.prems have
      "snd (for_loop env clip_box r_img features ps
          (writerows (w\<lparr>mask_calls := mask_calls w @ calls\<rparr>) out)) = None"
      by simp
    from Cons.IH [OF this] py Inr show ?thesis by simp
  qed
qed

lemma mask_calls_of_main:
  assumes bb: "fiona_open env ''data/ca_boundingbox.shp'' = Inr boundingbox"
  shows "\<exists>calls. mask_calls (fst (main env w)) = mask_calls w @ calls
    \<and> (\<forall>c \<in> set calls. snd c = map geometry boundingbox)
    \<and> (\<forall>features rural.
          fiona_open env ''data/GTM_adm2.shp'' = Inr features
        \<and> rasterio_open env ''data/rural.tif'' = Inr rural
        \<longrightarrow> calls \<noteq> [] \<and> hd calls = (rural, map geometry boundingbox))
    \<and> (snd (main env w) = None
        \<longrightarrow> map (\<lambda>c. Inr (fst c)) (tl calls) = map (rasterio_open env) (get_pop_rasters env))"
proof -
  let ?clip = "map geometry boundingbox"
  let ?P = "\<lambda>calls. mask_calls (fst (main env w)) = mask_calls w @ calls
    \<and> (\<forall>c \<in> set calls. snd c = ?clip)
    \<and> (\<forall>features rural.
          fiona_open env ''data/GTM_adm2.shp'' = Inr features
        \<and> rasterio_open env ''data/rural.tif'' = Inr rural
        \<longrightarrow> calls \<noteq> [] \<and> hd calls = (rural, ?clip))
    \<and> (snd (main env w) = None
        \<longrightarrow> map (\<lambda>c. Inr (fst c)) (tl calls) = map (rasterio_open env) (get_pop_rasters env))"
  show ?thesis
  proof (cases "fiona_open env ''data/GTM_adm2.shp''")
    case (Inl e)
    with bb have "?P []" by (simp add: main_def zones_def)
    then show ?thesis ..
  next
    case zf: (Inr features)
    show ?thesis
    proof (cases "rasterio_open env ''data/rural.tif''")
      case (Inl e)
      with bb zf have "?P []" by (simp add: main_def zones_def rural_region_def)
      then show ?thesis ..
    next
      case ro: (Inr rural)
      show ?thesis
      proof (cases "mask_crop env rural ?clip")
        case (Inl e)
        with bb zf ro have "?P [(rural, ?clip)]"
          by (simp add: main_def zones_def rural_region_def)
        then show ?thesis ..
      next
        case (Inr m)
        obtain r_img r_transform where mk: "mask_crop env rural ?clip = Inr (r_img, r_transform)"
          using Inr by (cases m) simp
        show ?thesis
        proof (cases "open_write env ''rural_urban_pop.csv''")
          case (Some e)
          with bb zf ro mk have "?P [(rural, ?clip)]"
            by (simp add: main_def zones_def rural_region_def)
          then show ?thesis ..
        next
          case ow: None
          let ?w1 = "w\<lparr>mask_calls := mask_calls w @ [(rural, ?clip)],
                       csv_file := Some [header_row]\<rparr>"
          have run: "main env w
              = for_loop env ?clip r_img features (get_pop_rasters env) ?w1"
            by (rule main_reaches_loop [OF bb zf ro mk ow])
          from for_loop_calls [of env ?clip r_img features "get_pop_rasters env" ?w1]
          obtain more where m: "mask_calls (fst (main env w)) = mask_calls ?w1 @ more"
            and c: "\<forall>c \<in> set more. snd c = ?clip"
            unfolding run by blast
          have opened: "map (\<lambda>c. Inr (fst c)) more = map (rasterio_open env) (get_pop_rasters env)"
            if "snd (main env w) = None"
          proof -
            define recs where
              "recs p = projr (snd (pop_year env ?clip r_img features p))" for p
            from that have "\<forall>p \<in> set (get_pop_rasters env).
                \<exists>out. snd (pop_year env ?clip r_img features p) = Inr out"
              unfolding run by (rule for_loop_None_D)
            then have ok: "\<forall>p \<in> set (get_pop_rasters env).
                snd (pop_year env ?clip r_img features p) = Inr (recs p)"
              by (auto simp: recs_def)
            have "mask_calls (fst (main env w))
                = mask_calls ?w1 @ concat (map (\<lambda>p. fst (pop_year env ?clip r_img features p))
                     (get_pop_rasters env))"
              unfolding run for_loop_all_ok [OF ok] by simp
            with m have more: "more = concat (map (\<lambda>p. fst (pop_year env ?clip r_img features p))
                     (get_pop_rasters env))"
              by simp
            have "\<forall>p \<in> set ps. \<exists>out. snd (pop_year env ?clip r_img features p) = Inr out \<Longrightarrow>
                map (\<lambda>c. Inr (fst c))
                  (concat (map (\<lambda>p. fst (pop_year env ?clip r_img features p)) ps))
                = map (rasterio_open env) ps" for ps
              by (induction ps) (auto simp: pop_year_def split: sum.splits)
            from this [OF \<open>\<forall>p \<in> set (get_pop_rasters env).
                \<exists>out. snd (pop_year env ?clip r_img features p) = Inr out\<close>]
            show ?thesis unfolding more .
          qed
          from m c opened zf ro have "?P ((rural, ?clip) # more)"
            by simp
          then show ?thesis ..
        qed
      qed
    qed
  qed
qed

lemma aggregate_mask_upd: "aggregate (env\<lparr>mask_crop := m'\<rparr>) = aggregate env"
  by (intro ext) (simp add: aggregate_def)

lemma pop_year_mask_agree:
  "\<forall>d. m' d clip_box = mask_crop env d clip_box \<Longrightarrow>
   pop_year (env\<lparr>mask_crop := m'\<rparr>) clip_box r_img features p
     = pop_year env clip_box r_img features p"
  by (simp add: pop_year_def aggregate_mask_upd split: sum.splits)

lemma for_loop_mask_agree:
  "\<forall>d. m' d clip_box = mask_crop env d clip_box \<Longrightarrow>
   for_loop (env\<lparr>mask_crop := m'\<rparr>) clip_box r_img features ps w
     = for_loop env clip_box r_img features ps w"
  by (induction ps arbitrary: w) (simp_all add: pop_year_mask_agree)

lemma main_mask_agree:
  assumes bb: "fiona_open env ''data/ca_boundingbox.shp'' = Inr boundingbox"
    and m: "\<forall>d. m' d (map geometry boundingbox) = mask_crop env d (map geometry boundingbox)"
  shows "main (env\<lparr>mask_crop := m'\<rparr>) w = main env w"
proof -
  have gp: "get_pop_rasters (env\<lparr>mask_crop := m'\<rparr>) = get_pop_rasters env"
    by (simp add: get_pop_rasters_def)
  show ?thesis
    using bb m
    by (simp add: main_def gp for_loop_mask_agree [of m' "map geometry boundingbox" env, OF m]
        split: sum.splits option.splits)
qed

lemma pop_year_clip:
  "rasterio_open env p = Inr pop \<Longrightarrow>
   snd (pop_year env clip_box r_img features p)
     = or_raise (mask_crop env pop clip_box) (\<lambda>(p_img, p_transform).
         aggregate env features r_img p_img p_transform p)"
  by (simp add: pop_year_def)

text \<open>
  C8. What \<^verbatim>\<open>mask\<close> receives as shapes, for the land-use raster and for every population
  raster, is the list of the geometries of all features of the bounding-box file, however
  many there are (none included). The run depends on \<^verbatim>\<open>mask\<close> only through its results on
  that list; the clip of the land-use raster with that list decides the run (its exception
  is the run's); the clip of each population raster with that list decides that raster (its
  exception ends the run, its array and transform give the rows). The calls the run makes
  carry that list, the first one for the land-use raster, the later ones for the opened
  population rasters in processing order.
\<close>

theorem clip_box_is_every_geometry:
  assumes bb: "fiona_open env ''data/ca_boundingbox.shp'' = Inr boundingbox"
  shows "(\<exists>calls. mask_calls (fst (main env w)) = mask_calls w @ calls
    \<and> (\<forall>c \<in> set calls. snd c = map geometry boundingbox)
    \<and> (\<forall>features rural.
          fiona_open env ''data/GTM_adm2.shp'' = Inr features
        \<and> rasterio_open env ''data/rural.tif'' = Inr rural
        \<longrightarrow> calls \<noteq> [] \<and> hd calls = (rural, map geometry boundingbox))
    \<and> (snd (main env w) = None
        \<longrightarrow> map (\<lambda>c. Inr (fst c)) (tl calls) = map (rasterio_open env) (get_pop_rasters env)))
    \<and> (\<forall>m'. (\<forall>d. m' d (map geometry boundingbox) = mask_crop env d (map geometry boundingbox))
          \<longrightarrow> main (env\<lparr>mask_crop := m'\<rparr>) w = main env w)
    \<and> (\<forall>features rural e.
          fiona_open env ''data/GTM_adm2.shp'' = Inr features
        \<and> rasterio_open env ''data/rural.tif'' = Inr rural
        \<and> mask_crop env rural (map geometry boundingbox) = Inl e
        \<longrightarrow> snd (main env w) = Some e)
    \<and> (\<forall>features rural r_img r_transform.
          fiona_open env ''data/GTM_adm2.shp'' = Inr features
        \<and> rasterio_open env ''data/rural.tif'' = Inr rural
        \<and> mask_crop env rural (map geometry boundingbox) = Inr (r_img, r_transform)
        \<and> open_write env ''rural_urban_pop.csv'' = None
        \<longrightarrow> (\<forall>earlier p later pop e.
               get_pop_rasters env = earlier @ p # later
             \<and> (\<forall>q \<in> set earlier. \<exists>out.
                   snd (pop_year env (map geometry boundingbox) r_img features q) = Inr out)
             \<and> rasterio_open env p = Inr pop
             \<and> mask_crop env pop (map geometry boundingbox) = Inl e
             \<longrightarrow> snd (main env w) = Some e)
          \<and> (\<forall>pops imgs ts outs.
               (\<forall>p \<in> set (get_pop_rasters env).
                   rasterio_open env p = Inr (pops p)
                 \<and> mask_crop env (pops p) (map geometry boundingbox) = Inr (imgs p, ts p)
                 \<and> aggregate env features r_img (imgs p) (ts p) p = Inr (outs p))
             \<longrightarrow> snd (main env w) = None
               \<and> csv_file (fst (main env w))
                   = Some (header_row
                       # concat (map (\<lambda>p. map dict_to_list (outs p)) (get_pop_rasters env)))))"
proof -
  let ?clip = "map geometry boundingbox"
  have a: "main (env\<lparr>mask_crop := m'\<rparr>) w = main env w"
    if "\<forall>d. m' d ?clip = mask_crop env d ?clip" for m'
    using bb that by (rule main_mask_agree)
  have b: "snd (main env w) = Some e"
    if "fiona_open env ''data/GTM_adm2.shp'' = Inr features
        \<and> rasterio_open env ''data/rural.tif'' = Inr rural
        \<and> mask_crop env rural ?clip = Inl e" for features rural e
    using bb that by (simp add: main_def zones_def rural_region_def)
  have cd: "(\<forall>earlier p later pop e.
               get_pop_rasters env = earlier @ p # later
             \<and> (\<forall>q \<in> set earlier. \<exists>out.
                   snd (pop_year env ?clip r_img features q) = Inr out)
             \<and> rasterio_open env p = Inr pop
             \<and> mask_crop env pop ?clip = Inl e
             \<longrightarrow> snd (main env w) = Some e)
          \<and> (\<forall>pops imgs ts outs.
               (\<forall>p \<in> set (get_pop_rasters env).
                   rasterio_open env p = Inr (pops p)
                 \<and> mask_crop env (pops p) ?clip = Inr (imgs p, ts p)
                 \<and> aggregate env features r_img (imgs p) (ts p) p = Inr (outs p))
             \<longrightarrow> snd (main env w) = None
               \<and> csv_file (fst (main env w))
                   = Some (header_row
                       # concat (map (\<lambda>p. map dict_to_list (outs p)) (get_pop_rasters env))))"
    if l: "fiona_open env ''data/GTM_adm2.shp'' = Inr features
        \<and> rasterio_open env ''data/rural.tif'' = Inr rural
        \<and> mask_crop env rural ?clip = Inr (r_img, r_transform)
        \<and> open_write env ''rural_urban_pop.csv'' = None"
    for features rural r_img r_transform
  proof -
    let ?w1 = "w\<lparr>mask_calls := mask_calls w @ [(rural, ?clip)], csv_file := Some [header_row]\<rparr>"
    have run: "main env w = for_loop env ?clip r_img features (get_pop_rasters env) ?w1"
      using l by (intro main_reaches_loop [OF bb]) blast+
    have c: "snd (main env w) = Some e"
      if h: "get_pop_rasters env = earlier @ p # later
             \<and> (\<forall>q \<in> set earlier. \<exists>out.
                   snd (pop_year env ?clip r_img features q) = Inr out)
             \<and> rasterio_open env p = Inr pop
             \<and> mask_crop env pop ?clip = Inl e" for earlier p later pop e
    proof -
      define recs where "recs q = projr (snd (pop_year env ?clip r_img features q))" for q
      from h have ok: "\<forall>q \<in> set earlier. snd (pop_year env ?clip r_img features q) = Inr (recs q)"
        by (auto simp: recs_def)
      from h have fails: "snd (pop_year env ?clip r_img features p) = Inl e"
        by (simp add: pop_year_clip)
      from h have order: "get_pop_rasters env = earlier @ p # later" by blast
      show ?thesis
        unfolding run order for_loop_append_ok [OF ok] for_loop_stops [OF fails] by simp
    qed
    have d: "snd (main env w) = None
               \<and> csv_file (fst (main env w))
                   = Some (header_row
                       # concat (map (\<lambda>p. map dict_to_list (outs p)) (get_pop_rasters env)))"
      if h: "\<forall>p \<in> set (get_pop_rasters env).
                   rasterio_open env p = Inr (pops p)
                 \<and> mask_crop env (pops p) ?clip = Inr (imgs p, ts p)
                 \<and> aggregate env features r_img (imgs p) (ts p) p = Inr (outs p)"
      for pops imgs ts outs
    proof -
      from h have ok: "\<forall>p \<in> set (get_pop_rasters env).
          snd (pop_year env ?clip r_img features p) = Inr (outs p)"
        by (simp add: pop_year_clip)
      show ?thesis
        unfolding run for_loop_all_ok [OF ok] by simp
    qed
    from c d show ?thesis by blast
  qed
  from mask_calls_of_main [OF bb, of w] a b cd show ?thesis by blast
qed

theorem clip_box_is_every_geometry_witness:
  "hd (mask_calls (fst (main (demo_env [] []) no_file))) = (''data/rural.tif'', [])
   \<and> snd (main (demo_env [] []) no_file) = Some (LibraryError ''no shapes'')
   \<and> hd (mask_calls (fst (main (demo_env
          [\<lparr>geometry = 0, properties = []\<rparr>, \<lparr>geometry = 5, properties = []\<rparr>] []) no_file)))
       = (''data/rural.tif'', [0, 5])
   \<and> csv_file (fst (main (demo_env
          [\<lparr>geometry = 0, properties = []\<rparr>, \<lparr>geometry = 5, properties = []\<rparr>]
          [''data/lspop2000/hdr.adf'']) no_file))
       = Some [[PyStr ''id'', PyStr ''name'', PyStr ''year'', PyStr ''rural_pop'', PyStr ''urban_pop''],
               [PyInt 101, PyStr ''Coban'', PyStr ''2000'', PyInt 9, PyInt 6],
               [PyInt 102, PyStr ''Flores'', PyStr ''2000'', PyInt 0, PyInt 6]]"
proof -
  let ?two = "[\<lparr>geometry = 0, properties = []\<rparr>, \<lparr>geometry = 5, properties = []\<rparr>] :: nat feature list"
  have first_call: "hd (mask_calls (fst (main (demo_env boxes []) no_file)))
      = (''data/rural.tif'', map geometry boxes)" for boxes
  proof -
    from clip_box_is_every_geometry [OF demo_loaders(1), of boxes "[]" no_file, THEN conjunct1]
    obtain calls where
      m: "mask_calls (fst (main (demo_env boxes []) no_file)) = mask_calls no_file @ calls"
      and h: "\<forall>features rural.
          fiona_open (demo_env boxes []) ''data/GTM_adm2.shp'' = Inr features
        \<and> rasterio_open (demo_env boxes []) ''data/rural.tif'' = Inr rural
        \<longrightarrow> calls \<noteq> [] \<and> hd calls = (rural, map geometry boxes)"
      by blast
    from h demo_loaders(2) [of boxes "[]"] demo_loaders(3) [of boxes "[]" "''data/rural.tif''"]
    have "hd calls = (''data/rural.tif'', map geometry boxes)" by blast
    with m show ?thesis by (simp add: no_file_def)
  qed
  have none: "snd (main (demo_env [] []) no_file) = Some (LibraryError ''no shapes'')"
  proof -
    have l: "fiona_open (demo_env [] []) ''data/GTM_adm2.shp'' = Inr demo_zones
        \<and> rasterio_open (demo_env [] []) ''data/rural.tif'' = Inr ''data/rural.tif''
        \<and> mask_crop (demo_env [] []) ''data/rural.tif'' (map geometry [])
            = Inl (LibraryError ''no shapes'')"
      by (simp add: demo_loaders demo_mask_def)
    from clip_box_is_every_geometry [OF demo_loaders(1), of "[]" "[]" no_file,
        THEN conjunct2, THEN conjunct2, THEN conjunct1] l
    show ?thesis by blast
  qed
  have two: "csv_file (fst (main (demo_env ?two [''data/lspop2000/hdr.adf'']) no_file))
       = Some [[PyStr ''id'', PyStr ''name'', PyStr ''year'', PyStr ''rural_pop'', PyStr ''urban_pop''],
               [PyInt 101, PyStr ''Coban'', PyStr ''2000'', PyInt 9, PyInt 6],
               [PyInt 102, PyStr ''Flores'', PyStr ''2000'', PyInt 0, PyInt 6]]"
  proof -
    let ?env = "demo_env ?two [''data/lspop2000/hdr.adf'']"
    have gp: "get_pop_rasters ?env = [''data/lspop2000/hdr.adf'']"
      by (simp add: get_pop_rasters_def pop_dir_def demo_loaders)
    have l: "fiona_open ?env ''data/GTM_adm2.shp'' = Inr demo_zones
        \<and> rasterio_open ?env ''data/rural.tif'' = Inr ''data/rural.tif''
        \<and> mask_crop ?env ''data/rural.tif'' (map geometry ?two) = Inr (demo_rural, 7)
        \<and> open_write ?env ''rural_urban_pop.csv'' = None"
      by (simp add: demo_loaders demo_mask_def)
    have each: "\<forall>p \<in> set (get_pop_rasters ?env).
                   rasterio_open ?env p = Inr (id p)
                 \<and> mask_crop ?env (id p) (map geometry ?two) = Inr (demo_pop2000, 7)
                 \<and> aggregate ?env demo_zones demo_rural demo_pop2000 7 p = Inr (demo_records p)"
      unfolding gp by (simp add: demo_loaders demo_mask_def demo_aggregate)
    from clip_box_is_every_geometry [OF demo_loaders(1), of ?two "[''data/lspop2000/hdr.adf'']"
        no_file, THEN conjunct2, THEN conjunct2, THEN conjunct2] l
    have "\<forall>pops imgs ts outs.
               (\<forall>p \<in> set (get_pop_rasters ?env).
                   rasterio_open ?env p = Inr (pops p)
                 \<and> mask_crop ?env (pops p) (map geometry ?two) = Inr (imgs p, ts p)
                 \<and> aggregate ?env demo_zones demo_rural (imgs p) (ts p) p = Inr (outs p))
             \<longrightarrow> snd (main ?env no_file) = None
               \<and> csv_file (fst (main ?env no_file))
                   = Some (header_row
                       # concat (map (\<lambda>p. map dict_to_list (outs p)) (get_pop_rasters ?env)))"
      by blast
    from this [THEN spec, THEN spec, THEN spec, THEN spec, THEN mp, OF each]
    show ?thesis
      by (simp add: gp header_row_def fieldnames_def demo_records_def dict_to_list_record)
  qed
  from first_call [of "[]"] first_call [of ?two] none two show ?thesis by simp
qed

section \<open>Bands after the first\<close>

lemma aggregate_band0:
  assumes "shape3 r' = shape3 r" and "data3 r' ! 0 = data3 r ! 0"
    and "shape3 p' = shape3 p" and "data3 p' ! 0 = data3 p ! 0"
    and zs: "zonal_stats env' = zonal_stats env"
  shows "aggregate env' features r' p' t path = aggregate env features r p t path"
proof -
  have w: "(\<exists>e. np_where_eq r' v p' = Inl e \<and> np_where_eq r v p = Inl e)
       \<or> (\<exists>tab tab'. np_where_eq r' v p' = Inr tab \<and> np_where_eq r v p = Inr tab'
            \<and> index0 tab = index0 tab')" for v
    by (rule np_where_eq_band0_cong [OF assms(1) assms(3) assms(2) assms(4)])
  from w [of 1] show ?thesis
  proof (elim disjE exE conjE)
    fix e assume "np_where_eq r' 1 p' = Inl e" "np_where_eq r 1 p = Inl e"
    then show ?thesis by (simp add: aggregate_def)
  next
    fix tab tab' assume r: "np_where_eq r' 1 p' = Inr tab" "np_where_eq r 1 p = Inr tab'"
      "index0 tab = index0 tab'"
    from w [of 0] show ?thesis
    proof (elim disjE exE conjE)
      fix e assume "np_where_eq r' 0 p' = Inl e" "np_where_eq r 0 p = Inl e"
      with r show ?thesis by (simp add: aggregate_def)
    next
      fix ub ub' assume "np_where_eq r' 0 p' = Inr ub" "np_where_eq r 0 p = Inr ub'"
        "index0 ub = index0 ub'"
      with r show ?thesis by (simp add: aggregate_def zs)
    qed
  qed
qed

lemma pop_year_band0:
  assumes m: "\<forall>d g. (\<exists>e. mask_crop env d g = Inl e \<and> m' d g = Inl e)
       \<or> (\<exists>a a' t. mask_crop env d g = Inr (a, t) \<and> m' d g = Inr (a', t)
            \<and> shape3 a' = shape3 a \<and> data3 a' ! 0 = data3 a ! 0)"
    and r: "shape3 r' = shape3 r" "data3 r' ! 0 = data3 r ! 0"
  shows "pop_year (env\<lparr>mask_crop := m'\<rparr>) clip_box r' features p
       = pop_year env clip_box r features p"
proof (cases "rasterio_open env p")
  case (Inl e)
  then show ?thesis by (simp add: pop_year_def)
next
  case (Inr pop)
  from m have "(\<exists>e. mask_crop env pop clip_box = Inl e \<and> m' pop clip_box = Inl e)
       \<or> (\<exists>a a' t. mask_crop env pop clip_box = Inr (a, t) \<and> m' pop clip_box = Inr (a', t)
            \<and> shape3 a' = shape3 a \<and> data3 a' ! 0 = data3 a ! 0)" by blast
  then show ?thesis
  proof (elim disjE exE conjE)
    fix e assume "mask_crop env pop clip_box = Inl e" "m' pop clip_box = Inl e"
    with Inr show ?thesis by (simp add: pop_year_def)
  next
    fix a a' t assume "mask_crop env pop clip_box = Inr (a, t)" "m' pop clip_box = Inr (a', t)"
      and s: "shape3 a' = shape3 a" "data3 a' ! 0 = data3 a ! 0"
    moreover have "aggregate (env\<lparr>mask_crop := m'\<rparr>) features r' a' t p
        = aggregate env features r a t p"
      by (rule aggregate_band0 [OF r s]) simp
    ultimately show ?thesis using Inr by (simp add: pop_year_def)
  qed
qed

lemma for_loop_band0:
  assumes m: "\<forall>d g. (\<exists>e. mask_crop env d g = Inl e \<and> m' d g = Inl e)
       \<or> (\<exists>a a' t. mask_crop env d g = Inr (a, t) \<and> m' d g = Inr (a', t)
            \<and> shape3 a' = shape3 a \<and> data3 a' ! 0 = data3 a ! 0)"
    and r: "shape3 r' = shape3 r" "data3 r' ! 0 = data3 r ! 0"
  shows "for_loop (env\<lparr>mask_crop := m'\<rparr>) clip_box r' features ps w
       = for_loop env clip_box r features ps w"
  by (induction ps arbitrary: w) (simp_all add: pop_year_band0 [OF m r])

text \<open>
  C9. Replace \<^verbatim>\<open>mask\<close> by any function whose results have the same transform, the same
  shape and the same first band (or raise the same exception): the run ends the same way
  and leaves the same file. Bands after the first never reach an output value.
\<close>

theorem only_first_band_counts:
  assumes m: "\<forall>d g. (\<exists>e. mask_crop env d g = Inl e \<and> m' d g = Inl e)
       \<or> (\<exists>a a' t. mask_crop env d g = Inr (a, t) \<and> m' d g = Inr (a', t)
            \<and> shape3 a' = shape3 a \<and> data3 a' ! 0 = data3 a ! 0)"
  shows "main (env\<lparr>mask_crop := m'\<rparr>) w = main env w"
proof (cases "fiona_open env ''data/ca_boundingbox.shp''")
  case (Inl e)
  then show ?thesis by (simp add: main_def)
next
  case bb: (Inr boundingbox)
  show ?thesis
  proof (cases "fiona_open env zones")
    case (Inl e)
    with bb show ?thesis by (simp add: main_def)
  next
    case zf: (Inr features)
    show ?thesis
    proof (cases "rasterio_open env rural_region")
      case (Inl e)
      with bb zf show ?thesis by (simp add: main_def)
    next
      case ro: (Inr rural)
      let ?clip = "map geometry boundingbox"
      have gp: "get_pop_rasters (env\<lparr>mask_crop := m'\<rparr>) = get_pop_rasters env"
        by (simp add: get_pop_rasters_def)
      from m have "(\<exists>e. mask_crop env rural ?clip = Inl e \<and> m' rural ?clip = Inl e)
       \<or> (\<exists>a a' t. mask_crop env rural ?clip = Inr (a, t) \<and> m' rural ?clip = Inr (a', t)
            \<and> shape3 a' = shape3 a \<and> data3 a' ! 0 = data3 a ! 0)" by blast
      then show ?thesis
      proof (elim disjE exE conjE)
        fix e assume "mask_crop env rural ?clip = Inl e" "m' rural ?clip = Inl e"
        with bb zf ro show ?thesis by (simp add: main_def)
      next
        fix a a' t assume mk: "mask_crop env rural ?clip = Inr (a, t)" "m' rural ?clip = Inr (a', t)"
          and s: "shape3 a' = shape3 a" "data3 a' ! 0 = data3 a ! 0"
        show ?thesis
          using bb zf ro mk
          by (simp add: main_def gp for_loop_band0 [OF m s] split: option.splits)
      qed
    qed
  qed
qed

theorem only_first_band_counts_witness:
  "main ((demo_env demo_box [''data/lspop2010/hdr.adf''])\<lparr>mask_crop := demo_mask_alt\<rparr>) no_file
     = main (demo_env demo_box [''data/lspop2010/hdr.adf'']) no_file
   \<and> demo_mask_alt ''data/lspop2010/hdr.adf'' [0] \<noteq> demo_mask ''data/lspop2010/hdr.adf'' [0]"
proof -
  let ?env = "demo_env demo_box [''data/lspop2010/hdr.adf'']"
  have m: "\<forall>d g. (\<exists>e. mask_crop ?env d g = Inl e \<and> demo_mask_alt d g = Inl e)
       \<or> (\<exists>a a' t. mask_crop ?env d g = Inr (a, t) \<and> demo_mask_alt d g = Inr (a', t)
            \<and> shape3 a' = shape3 a \<and> data3 a' ! 0 = data3 a ! 0)"
  proof (intro allI)
    fix d g
    show "(\<exists>e. mask_crop ?env d g = Inl e \<and> demo_mask_alt d g = Inl e)
       \<or> (\<exists>a a' t. mask_crop ?env d g = Inr (a, t) \<and> demo_mask_alt d g = Inr (a', t)
            \<and> shape3 a' = shape3 a \<and> data3 a' ! 0 = data3 a ! 0)"
    proof (cases "demo_mask d g = Inr (demo_pop2010, 7)")
      case True
      then show ?thesis
        by (simp add: demo_loaders demo_mask_alt_def demo_pop2010_def demo_pop2010_alt_def)
    next
      case False
      then show ?thesis
        by (cases "demo_mask d g") (auto simp: demo_loaders demo_mask_alt_def)
    qed
  qed
  have d: "demo_mask_alt ''data/lspop2010/hdr.adf'' [0] \<noteq> demo_mask ''data/lspop2010/hdr.adf'' [0]"
    by (simp add: demo_mask_def demo_mask_alt_def demo_pop2010_def demo_pop2010_alt_def)
  from only_first_band_counts [OF m, of no_file] d show ?thesis by blast
qed

section \<open>Running again\<close>

lemma for_loop_prior:
  "csv_file w1 = csv_file w2 \<Longrightarrow>
   csv_file (fst (for_loop env clip_box r_img features ps w1))
     = csv_file (fst (for_loop env clip_box r_img features ps w2))
   \<and> snd (for_loop env clip_box r_img features ps w1)
     = snd (for_loop env clip_box r_img features ps w2)"
proof (induction ps arbitrary: w1 w2)
  case Nil
  then show ?case by simp
next
  case (Cons p ps)
  obtain calls res where py: "pop_year env clip_box r_img features p = (calls, res)"
    by (cases "pop_year env clip_box r_img features p")
  show ?case
  proof (cases res)
    case (Inl e)
    with py Cons.prems show ?thesis by simp
  next
    case (Inr out)
    have "csv_file (writerows (w1\<lparr>mask_calls := mask_calls w1 @ calls\<rparr>) out)
        = csv_file (writerows (w2\<lparr>mask_calls := mask_calls w2 @ calls\<rparr>) out)"
      using Cons.prems by (simp add: writerows_def)
    from Cons.IH [OF this] py Inr show ?thesis by simp
  qed
qed

text \<open>
  C10, as stated, fails: when the clip of the land-use raster raises (the bounding box
  misses the raster), the run ends before the output file is opened, and the file is what
  it was before the run.
\<close>

theorem rerun_counterexample:
  "csv_file (fst (main (demo_env [\<lparr>geometry = 9, properties = []\<rparr>] []) stale_file))
     \<noteq> csv_file (fst (main (demo_env [\<lparr>geometry = 9, properties = []\<rparr>] []) no_file))"
  by (simp add: main_def demo_loaders zones_def rural_region_def demo_mask_def
      stale_file_def no_file_def)

text \<open>
  C10, amended. Whether and how a run fails never depends on what the output file held.
  When the bounding box, the zones and the land-use raster load and the output file opens,
  the file after the run does not depend on it either; otherwise the run leaves the file
  as it was.
\<close>

theorem rerun_same_output:
  "snd (main env w1) = snd (main env w2)
   \<and> ((\<exists>boundingbox features rural r_img r_transform.
          fiona_open env ''data/ca_boundingbox.shp'' = Inr boundingbox
        \<and> fiona_open env ''data/GTM_adm2.shp'' = Inr features
        \<and> rasterio_open env ''data/rural.tif'' = Inr rural
        \<and> mask_crop env rural (map geometry boundingbox) = Inr (r_img, r_transform)
        \<and> open_write env ''rural_urban_pop.csv'' = None)
       \<longrightarrow> csv_file (fst (main env w1)) = csv_file (fst (main env w2)))
   \<and> (\<not> (\<exists>boundingbox features rural r_img r_transform.
          fiona_open env ''data/ca_boundingbox.shp'' = Inr boundingbox
        \<and> fiona_open env ''data/GTM_adm2.shp'' = Inr features
        \<and> rasterio_open env ''data/rural.tif'' = Inr rural
        \<and> mask_crop env rural (map geometry boundingbox) = Inr (r_img, r_transform)
        \<and> open_write env ''rural_urban_pop.csv'' = None)
       \<longrightarrow> csv_file (fst (main env w1)) = csv_file w1)"
proof -
  let ?reached = "\<exists>boundingbox features rural r_img r_transform.
          fiona_open env ''data/ca_boundingbox.shp'' = Inr boundingbox
        \<and> fiona_open env ''data/GTM_adm2.shp'' = Inr features
        \<and> rasterio_open env ''data/rural.tif'' = Inr rural
        \<and> mask_crop env rural (map geometry boundingbox) = Inr (r_img, r_transform)
        \<and> open_write env ''rural_urban_pop.csv'' = None"
  show ?thesis
  proof (cases ?reached)
    case True
    then obtain boundingbox features rural r_img r_transform where
      l: "fiona_open env ''data/ca_boundingbox.shp'' = Inr boundingbox"
         "fiona_open env ''data/GTM_adm2.shp'' = Inr features"
         "rasterio_open env ''data/rural.tif'' = Inr rural"
         "mask_crop env rural (map geometry boundingbox) = Inr (r_img, r_transform)"
         "open_write env ''rural_urban_pop.csv'' = None"
      by blast
    let ?start = "\<lambda>w. w\<lparr>mask_calls := mask_calls w @ [(rural, map geometry boundingbox)],
                         csv_file := Some [header_row]\<rparr>"
    have run: "main env w
        = for_loop env (map geometry boundingbox) r_img features (get_pop_rasters env) (?start w)"
      for w :: "('a, 'b) world"
      by (rule main_reaches_loop [OF l])
    have "csv_file (?start w1) = csv_file (?start w2)" by simp
    from for_loop_prior [OF this] True show ?thesis
      unfolding run by blast
  next
    case False
    have "snd (main env w) = snd (main env w1) \<and> csv_file (fst (main env w)) = csv_file w"
      for w :: "('a, 'b) world"
    proof (cases "fiona_open env ''data/ca_boundingbox.shp''")
      case (Inl e)
      then show ?thesis by (simp add: main_def)
    next
      case bb: (Inr boundingbox)
      show ?thesis
      proof (cases "fiona_open env ''data/GTM_adm2.shp''")
        case (Inl e)
        with bb show ?thesis by (simp add: main_def zones_def)
      next
        case zf: (Inr features)
        show ?thesis
        proof (cases "rasterio_open env ''data/rural.tif''")
          case (Inl e)
          with bb zf show ?thesis by (simp add: main_def zones_def rural_region_def)
        next
          case ro: (Inr rural)
          show ?thesis
          proof (cases "mask_crop env rural (map geometry boundingbox)")
            case (Inl e)
            with bb zf ro show ?thesis by (simp add: main_def zones_def rural_region_def)
          next
            case (Inr m)
            then obtain r_img r_transform where
              mk: "mask_crop env rural (map geometry boundingbox) = Inr (r_img, r_transform)"
              by (cases m) simp
            with False bb zf ro obtain e where "open_write env ''rural_urban_pop.csv'' = Some e"
              by (cases "open_write env ''rural_urban_pop.csv''") blast+
            with bb zf ro mk show ?thesis by (simp add: main_def zones_def rural_region_def)
          qed
        qed
      qed
    qed
    from this [of w1] this [of w2]
    have "snd (main env w1) = snd (main env w2)"
      and "csv_file (fst (main env w1)) = csv_file w1"
      by simp_all
    with False show ?thesis by blast
  qed
qed

theorem rerun_same_output_witness:
  "csv_file (fst (main (demo_env demo_box [''data/lspop2000/hdr.adf'']) stale_file))
     = csv_file (fst (main (demo_env demo_box [''data/lspop2000/hdr.adf'']) no_file))
   \<and> csv_file (fst (main (demo_env [\<lparr>geometry = 9, properties = []\<rparr>] []) stale_file))
     = Some [[PyStr ''stale'']]"
proof -
  let ?env = "demo_env demo_box [''data/lspop2000/hdr.adf'']"
  let ?bad = "demo_env [\<lparr>geometry = 9, properties = []\<rparr>] []"
  have reached: "\<exists>boundingbox features rural r_img r_transform.
          fiona_open ?env ''data/ca_boundingbox.shp'' = Inr boundingbox
        \<and> fiona_open ?env ''data/GTM_adm2.shp'' = Inr features
        \<and> rasterio_open ?env ''data/rural.tif'' = Inr rural
        \<and> mask_crop ?env rural (map geometry boundingbox) = Inr (r_img, r_transform)
        \<and> open_write ?env ''rural_urban_pop.csv'' = None"
    by (intro exI [of _ demo_box] exI [of _ demo_zones] exI [of _ "''data/rural.tif''"]
        exI [of _ demo_rural] exI [of _ 7] conjI demo_loaders demo_mask_rural)
  have not_reached: "\<not> (\<exists>boundingbox features rural r_img r_transform.
          fiona_open ?bad ''data/ca_boundingbox.shp'' = Inr boundingbox
        \<and> fiona_open ?bad ''data/GTM_adm2.shp'' = Inr features
        \<and> rasterio_open ?bad ''data/rural.tif'' = Inr rural
        \<and> mask_crop ?bad rural (map geometry boundingbox) = Inr (r_img, r_transform)
        \<and> open_write ?bad ''rural_urban_pop.csv'' = None)"
    by (auto simp: demo_loaders demo_mask_def)
  from rerun_same_output [of ?env stale_file no_file] reached
  have a: "csv_file (fst (main ?env stale_file)) = csv_file (fst (main ?env no_file))"
    by blast
  from rerun_same_output [of ?bad stale_file no_file] not_reached
  have "csv_file (fst (main ?bad stale_file)) = csv_file stale_file"
    by blast
  with a show ?thesis by (simp add: stale_file_def)
qed

end
